theory Spec2Isabelle
  imports Complex_Main "HOL-Library.Word"
begin

unbundle bit_operations_syntax

section \<open>Data model\<close>

text \<open>
  JavaScript numbers are modelled as \<^typ>\<open>real\<close>: the finite doubles, with the
  rounding of each floating-point operation left out. The 32-bit integer operators of
  the polyline decoder (\<^verbatim>\<open>|\<close>, \<^verbatim>\<open>&\<close>, \<^verbatim>\<open><<\<close>, \<^verbatim>\<open>>>\<close>, \<^verbatim>\<open>~\<close>) work on
  \<^typ>\<open>32 word\<close>. A string is the list of its UTF-16 code units.
\<close>

type_synonym js_string = "nat list"

definition js :: "string \<Rightarrow> js_string" where
  "js s = map of_char s"

text \<open>\<^verbatim>\<open>{ lat, lng }\<close>, and its extensions \<^verbatim>\<open>Location\<close> and \<^verbatim>\<open>TimePoint\<close>.\<close>

record Coord =
  lat :: real
  lng :: real

record Location = Coord +
  address :: "string option"

record TimePoint = Coord +
  time :: real

record SpeedSegment =
  startDistance :: real
  endDistance :: real
  duration :: real
  speed :: real

section \<open>Polyline codec\<close>

text \<open>
  \<^verbatim>\<open>encoded.charCodeAt(i)\<close> is \<^verbatim>\<open>NaN\<close> past the end of the string: \<^term>\<open>None\<close> here.
  With \<^verbatim>\<open>b = NaN - 63 = NaN\<close>, the chunk \<^verbatim>\<open>b & 0x1f\<close> is 0 and the test
  \<^verbatim>\<open>b >= 0x20\<close> is false.
\<close>

definition charCodeAt :: "js_string \<Rightarrow> nat \<Rightarrow> int option" where
  "charCodeAt s i = (if i < length s then Some (int (s ! i)) else None)"

definition chunk_bits :: "int option \<Rightarrow> 32 word" where
  "chunk_bits b = (case b of None \<Rightarrow> 0 | Some v \<Rightarrow> word_of_int (v AND 0x1f))"

definition continues :: "int option \<Rightarrow> bool" where
  "continues b = (case b of None \<Rightarrow> False | Some v \<Rightarrow> v \<ge> 0x20)"

text \<open>
  One \<^verbatim>\<open>do { ... } while (b >= 0x20)\<close> loop of \<^verbatim>\<open>decodePolyline\<close>; it returns the
  index after the group and the accumulated \<^verbatim>\<open>result\<close>. The shift count of \<^verbatim>\<open><<\<close> is
  taken modulo 32.
\<close>

function readGroup :: "js_string \<Rightarrow> nat \<Rightarrow> nat \<Rightarrow> 32 word \<Rightarrow> nat \<times> 32 word" where
  "readGroup encoded index shift result =
     (let b = map_option (\<lambda>c. c - 63) (charCodeAt encoded index);
          result' = result OR push_bit (shift mod 32) (chunk_bits b)
      in if continues b then readGroup encoded (index + 1) (shift + 5) result'
         else (index + 1, result'))"
  by pat_completeness auto
termination
  by (relation "measure (\<lambda>(encoded, index, shift, result). length encoded - index)")
     (auto simp: continues_def charCodeAt_def split: option.splits if_splits)

declare readGroup.simps [simp del]

text \<open>\<^verbatim>\<open>(result & 1) !== 0 ? ~(result >> 1) : result >> 1\<close>, read as a signed number.\<close>

definition zigzag :: "32 word \<Rightarrow> int" where
  "zigzag result =
     (if result AND 1 \<noteq> 0 then sint (NOT (signed_drop_bit 1 result))
      else sint (signed_drop_bit 1 result))"

lemma readGroup_index: "index < fst (readGroup encoded index shift result)"
proof (induction encoded index shift result rule: readGroup.induct)
  case (1 encoded index shift result)
  show ?case
  proof (cases "continues (map_option (\<lambda>c. c - 63) (charCodeAt encoded index))")
    case True
    with 1 show ?thesis
      by (subst readGroup.simps) (auto simp: Let_def intro: less_trans[OF lessI])
  next
    case False
    then show ?thesis by (subst readGroup.simps) (simp add: Let_def)
  qed
qed

lemma readGroup_next: "readGroup encoded index shift result = (j, w) \<Longrightarrow> index < j"
  using readGroup_index [of index encoded shift result] by simp

text \<open>The \<^verbatim>\<open>while (index < len)\<close> loop: a latitude group, a longitude group, one point.\<close>

function decodeLoop :: "js_string \<Rightarrow> nat \<Rightarrow> int \<Rightarrow> int \<Rightarrow> Coord list \<Rightarrow> Coord list" where
  "decodeLoop encoded index lat0 lng0 poly =
     (if index < length encoded then
        (let (index1, result1) = readGroup encoded index 0 0;
             lat1 = lat0 + zigzag result1;
             (index2, result2) = readGroup encoded index1 0 0;
             lng1 = lng0 + zigzag result2
         in decodeLoop encoded index2 lat1 lng1
              (poly @ [\<lparr>lat = real_of_int lat1 / 100000, lng = real_of_int lng1 / 100000\<rparr>]))
      else poly)"
  by pat_completeness auto
termination
  apply (relation "measure (\<lambda>(encoded, index, lat0, lng0, poly). length encoded - index)")
   apply simp
  apply (auto dest!: readGroup_next [OF sym])
  done

declare decodeLoop.simps [simp del]

definition decodePolyline :: "js_string \<Rightarrow> Coord list" where
  "decodePolyline encoded = decodeLoop encoded 0 0 0 []"

lemma decode_reference_polyline:
  "decodePolyline (js ''_p~iF~ps|U_ulLnnqC_mqNvxq`@'') =
     [\<lparr>lat = 38.5, lng = -120.2\<rparr>, \<lparr>lat = 40.7, lng = -120.95\<rparr>,
      \<lparr>lat = 43.252, lng = -126.453\<rparr>]"
  by code_simp

text \<open>
  C7: decoding the reference string of the published encoding example yields a
  non-empty point list whose first point is exactly (38.5, -120.2).
\<close>

theorem decodePolyline_reference_first_point:
  "decodePolyline (js ''_p~iF~ps|U_ulLnnqC_mqNvxq`@'') \<noteq> [] \<and>
   hd (decodePolyline (js ''_p~iF~ps|U_ulLnnqC_mqNvxq`@'')) = \<lparr>lat = 38.5, lng = -120.2\<rparr>"
  by (simp add: decode_reference_polyline)

section \<open>Geodesic distance\<close>

text \<open>
  \<^verbatim>\<open>Math.atan2(y, x)\<close>, the angle of the point \<open>(x, y)\<close> in \<open>(-\<pi>, \<pi>]\<close>, written with
  \<^term>\<open>arctan\<close>.
\<close>

definition atan2 :: "real \<Rightarrow> real \<Rightarrow> real" where
  "atan2 y x =
     (if 0 < x then arctan (y / x)
      else if x < 0 then (if 0 \<le> y then arctan (y / x) + pi else arctan (y / x) - pi)
      else if 0 < y then pi / 2
      else if y < 0 then - (pi / 2)
      else 0)"

definition calculateDistance :: "real \<Rightarrow> real \<Rightarrow> real \<Rightarrow> real \<Rightarrow> real" where
  "calculateDistance lat1 lng1 lat2 lng2 =
     (let R = 6371000;
          phi1 = lat1 * pi / 180;
          phi2 = lat2 * pi / 180;
          dphi = (lat2 - lat1) * pi / 180;
          dlambda = (lng2 - lng1) * pi / 180;
          a = sin (dphi / 2) * sin (dphi / 2) +
              cos phi1 * cos phi2 * sin (dlambda / 2) * sin (dlambda / 2);
          c = 2 * atan2 (sqrt a) (sqrt (1 - a))
      in R * c)"

text \<open>The haversine term \<open>a\<close> of \<^const>\<open>calculateDistance\<close>, named for the proofs.\<close>

definition haversine_a :: "real \<Rightarrow> real \<Rightarrow> real \<Rightarrow> real \<Rightarrow> real" where
  "haversine_a lat1 lng1 lat2 lng2 =
     sin ((lat2 - lat1) * pi / 180 / 2) * sin ((lat2 - lat1) * pi / 180 / 2) +
     cos (lat1 * pi / 180) * cos (lat2 * pi / 180) *
       sin ((lng2 - lng1) * pi / 180 / 2) * sin ((lng2 - lng1) * pi / 180 / 2)"

lemma calculateDistance_haversine:
  "calculateDistance lat1 lng1 lat2 lng2 =
     6371000 * (2 * atan2 (sqrt (haversine_a lat1 lng1 lat2 lng2))
                          (sqrt (1 - haversine_a lat1 lng1 lat2 lng2)))"
  by (simp add: calculateDistance_def haversine_a_def Let_def)

lemma atan2_nonneg: "0 \<le> y \<Longrightarrow> 0 \<le> atan2 y x"
proof -
  assume y: "0 \<le> y"
  have "- (pi / 2) < arctan (y / x)" by (rule arctan_lbound)
  then have "0 \<le> arctan (y / x) + pi" using pi_gt_zero by linarith
  then show ?thesis using y by (auto simp: atan2_def)
qed


lemma sin_half_sq: "sin (x / 2) * sin (x / 2) = (1 - cos x) / (2::real)"
  using cos_double_sin [of "x / 2"] by (simp add: power2_eq_square)

text \<open>
  The haversine term is a convex combination of two squares, so it is never negative
  and its square root is the root of a non-negative number. This is a fact of exact
  arithmetic: in double arithmetic the term can round above 1 for near-antipodal points,
  \<^verbatim>\<open>Math.sqrt(1 - a)\<close> is then \<^verbatim>\<open>NaN\<close>, and so is the distance.
\<close>

lemma haversine_a_nonneg: "0 \<le> haversine_a lat1 lng1 lat2 lng2"
proof -
  define p1 where "p1 = lat1 * pi / 180"
  define p2 where "p2 = lat2 * pi / 180"
  define dl where "dl = (lng2 - lng1) * pi / 180"
  define s where "s = sin (dl / 2) * sin (dl / 2)"
  have dphi: "(lat2 - lat1) * pi / 180 = p2 - p1"
    by (simp add: p1_def p2_def field_simps)
  have s0: "0 \<le> s" by (simp add: s_def)
  have s1: "s \<le> 1"
  proof -
    have "s = (sin (dl / 2))\<^sup>2" by (simp add: s_def power2_eq_square)
    also have "\<dots> \<le> 1" by (simp add: sin_squared_eq)
    finally show ?thesis .
  qed
  define A where "A = sin ((p2 - p1) / 2) * sin ((p2 - p1) / 2)"
  have A0: "0 \<le> A" by (simp add: A_def)
  have B: "A + cos p1 * cos p2 = (1 + cos (p1 + p2)) / 2"
    unfolding A_def sin_half_sq cos_diff cos_add by (simp add: field_simps)
  have "- 1 \<le> cos (p1 + p2)" by (rule cos_ge_minus_one)
  then have "0 \<le> 1 + cos (p1 + p2)" by linarith
  then have "0 \<le> (1 + cos (p1 + p2)) / 2" by (rule divide_nonneg_nonneg) simp
  then have B0: "0 \<le> A + cos p1 * cos p2" by (simp only: B)
  have "haversine_a lat1 lng1 lat2 lng2 = A + cos p1 * cos p2 * s"
    unfolding haversine_a_def dphi A_def s_def p1_def p2_def dl_def by (simp add: mult.assoc)
  also have "\<dots> = (1 - s) * A + s * (A + cos p1 * cos p2)" by (simp add: algebra_simps)
  finally have eq: "haversine_a lat1 lng1 lat2 lng2 = (1 - s) * A + s * (A + cos p1 * cos p2)" .
  have t1: "0 \<le> (1 - s) * A" using s1 A0 by simp
  have t2: "0 \<le> s * (A + cos p1 * cos p2)" using s0 B0 by (rule mult_nonneg_nonneg)
  have "0 \<le> (1 - s) * A + s * (A + cos p1 * cos p2)" using t1 t2 by (rule add_nonneg_nonneg)
  then show ?thesis by (simp only: eq)
qed

lemma calculateDistance_nonneg: "0 \<le> calculateDistance lat1 lng1 lat2 lng2"
  unfolding calculateDistance_haversine
  using atan2_nonneg [of "sqrt (haversine_a lat1 lng1 lat2 lng2)"]
    haversine_a_nonneg [of lat1 lng1 lat2 lng2]
  by simp





section \<open>Coordinate interpolator\<close>

text \<open>The \<^verbatim>\<open>{ lat, lng }\<close> part of a point.\<close>

definition coordOf :: "'a Coord_scheme \<Rightarrow> Coord" where
  "coordOf p = \<lparr>lat = lat p, lng = lng p\<rparr>"

text \<open>The \<^verbatim>\<open>for (let i = 1; i < points.length; i++)\<close> scan of \<^verbatim>\<open>getPointAtTime\<close>.\<close>

function getPointAtTime_loop :: "TimePoint list \<Rightarrow> real \<Rightarrow> nat \<Rightarrow> Coord option" where
  "getPointAtTime_loop points targetTime i =
     (if i < length points then
        (let previous = points ! (i - 1);
             current = points ! i
         in if targetTime \<le> time current then
              (let interval = time current - time previous
               in if interval \<le> 0 then Some \<lparr>lat = lat current, lng = lng current\<rparr>
                  else (let ratio = min (max ((targetTime - time previous) / interval) 0) 1
                        in Some \<lparr>lat = lat previous + (lat current - lat previous) * ratio,
                                 lng = lng previous + (lng current - lng previous) * ratio\<rparr>))
            else getPointAtTime_loop points targetTime (i + 1))
      else (let finalPoint = points ! (length points - 1)
            in Some \<lparr>lat = lat finalPoint, lng = lng finalPoint\<rparr>))"
  by pat_completeness auto
termination
  by (relation "measure (\<lambda>(points, targetTime, i). length points - i)") auto

declare getPointAtTime_loop.simps [simp del]

definition getPointAtTime :: "TimePoint list \<Rightarrow> real \<Rightarrow> Coord option" where
  "getPointAtTime points targetTime =
     (if length points = 0 then None
      else if targetTime \<le> time (points ! 0) then
        Some \<lparr>lat = lat (points ! 0), lng = lng (points ! 0)\<rparr>
      else getPointAtTime_loop points targetTime 1)"

text \<open>
  The interpolation rule in the specification's words: between the previous sample and
  the current one, at the fraction \<open>(targetTime - prev.time) / (cur.time - prev.time)\<close>
  clamped to \<open>[0, 1]\<close>; the later point outright when the interval is not positive.
\<close>

definition interpolateAtTime :: "TimePoint \<Rightarrow> TimePoint \<Rightarrow> real \<Rightarrow> Coord" where
  "interpolateAtTime prev cur targetTime =
     (if time cur - time prev \<le> 0 then coordOf cur
      else (let fraction = min 1 (max 0 ((targetTime - time prev) / (time cur - time prev)))
            in \<lparr>lat = lat prev + (lat cur - lat prev) * fraction,
                lng = lng prev + (lng cur - lng prev) * fraction\<rparr>))"

lemma getPointAtTime_loop_skip:
  "k \<le> i \<Longrightarrow> i < length points \<Longrightarrow> \<forall>j. k \<le> j \<and> j < i \<longrightarrow> time (points ! j) < targetTime \<Longrightarrow>
   getPointAtTime_loop points targetTime k = getPointAtTime_loop points targetTime i"
proof (induction "i - k" arbitrary: k)
  case 0
  then show ?case by simp
next
  case (Suc n)
  then have "k < i" "k < length points" "time (points ! k) < targetTime" by auto
  then have "getPointAtTime_loop points targetTime k = getPointAtTime_loop points targetTime (k + 1)"
    by (subst getPointAtTime_loop.simps) (simp add: Let_def)
  moreover have "getPointAtTime_loop points targetTime (k + 1) = getPointAtTime_loop points targetTime i"
    using Suc by (intro Suc.hyps(1)) auto
  ultimately show ?case by simp
qed

lemma getPointAtTime_loop_hit:
  "0 < i \<Longrightarrow> i < length points \<Longrightarrow> targetTime \<le> time (points ! i) \<Longrightarrow>
   getPointAtTime_loop points targetTime i = Some (interpolateAtTime (points ! (i - 1)) (points ! i) targetTime)"
  by (subst getPointAtTime_loop.simps)
     (simp add: Let_def interpolateAtTime_def coordOf_def min.commute max.commute)

lemma getPointAtTime_loop_end:
  "length points \<le> i \<Longrightarrow> points \<noteq> [] \<Longrightarrow> getPointAtTime_loop points targetTime i = Some (coordOf (last points))"
  by (subst getPointAtTime_loop.simps) (simp add: Let_def coordOf_def last_conv_nth)

lemma getPointAtTime_loop_past:
  "\<forall>j < length points. time (points ! j) < targetTime \<Longrightarrow> points \<noteq> [] \<Longrightarrow>
   getPointAtTime_loop points targetTime k = Some (coordOf (last points))"
proof (induction "length points - k" arbitrary: k)
  case 0
  then show ?case by (simp add: getPointAtTime_loop_end)
next
  case (Suc n)
  then have "k < length points" "time (points ! k) < targetTime" by auto
  then have "getPointAtTime_loop points targetTime k = getPointAtTime_loop points targetTime (k + 1)"
    by (subst getPointAtTime_loop.simps) (simp add: Let_def)
  then show ?case using Suc by auto
qed

text \<open>
  C5: for a non-empty series, a target time at or before the first sample's time gives
  the first point; in a series with non-decreasing times (a TimePointSeries), a target
  time after the last sample's time gives the last point; otherwise, with \<open>i\<close> the first
  sample whose time is at least the target time, the result interpolates between sample
  \<open>i - 1\<close> and sample \<open>i\<close> by the clamped fraction, or is sample \<open>i\<close> outright when the
  interval is not positive.
\<close>

theorem getPointAtTime_cases:
  assumes "points \<noteq> []"
  shows "(targetTime \<le> time (hd points) \<longrightarrow>
            getPointAtTime points targetTime = Some (coordOf (hd points))) \<and>
         (sorted (map time points) \<and> time (last points) < targetTime \<longrightarrow>
            getPointAtTime points targetTime = Some (coordOf (last points))) \<and>
         (time (hd points) < targetTime \<and> i < length points \<and> targetTime \<le> time (points ! i) \<and>
          (\<forall>j < i. time (points ! j) < targetTime) \<longrightarrow>
            getPointAtTime points targetTime =
              Some (interpolateAtTime (points ! (i - 1)) (points ! i) targetTime))"
proof (intro conjI impI)
  assume "targetTime \<le> time (hd points)"
  with assms show "getPointAtTime points targetTime = Some (coordOf (hd points))"
    by (simp add: getPointAtTime_def hd_conv_nth coordOf_def)
next
  assume a: "sorted (map time points) \<and> time (last points) < targetTime"
  have all: "\<forall>j < length points. time (points ! j) < targetTime"
  proof (intro allI impI)
    fix j assume j: "j < length points"
    have "map time points ! j \<le> map time points ! (length points - 1)"
      using a j by (intro sorted_nth_mono) auto
    then have "time (points ! j) \<le> time (last points)"
      using j assms by (simp add: last_conv_nth)
    with a show "time (points ! j) < targetTime" by simp
  qed
  then have "\<not> targetTime \<le> time (points ! 0)" using assms by (auto simp: not_le)
  with assms show "getPointAtTime points targetTime = Some (coordOf (last points))"
    by (simp add: getPointAtTime_def getPointAtTime_loop_past [OF all assms])
next
  assume a: "time (hd points) < targetTime \<and> i < length points \<and> targetTime \<le> time (points ! i) \<and>
          (\<forall>j < i. time (points ! j) < targetTime)"
  then have i0: "0 < i" using assms by (cases i) (auto simp: hd_conv_nth)
  have "getPointAtTime points targetTime = getPointAtTime_loop points targetTime 1"
    using a assms by (simp add: getPointAtTime_def hd_conv_nth)
  also have "\<dots> = getPointAtTime_loop points targetTime i"
    using a i0 by (intro getPointAtTime_loop_skip) auto
  also have "\<dots> = Some (interpolateAtTime (points ! (i - 1)) (points ! i) targetTime)"
    using a i0 by (intro getPointAtTime_loop_hit) auto
  finally show "getPointAtTime points targetTime =
              Some (interpolateAtTime (points ! (i - 1)) (points ! i) targetTime)" .
qed


theorem getPointAtTime_cases_witness:
  "getPointAtTime [\<lparr>lat = 0, lng = 0, time = 0\<rparr>, \<lparr>lat = 1, lng = 2, time = 10\<rparr>,
                   \<lparr>lat = 3, lng = 4, time = 20\<rparr>] (- 1) = Some \<lparr>lat = 0, lng = 0\<rparr> \<and>
   getPointAtTime [\<lparr>lat = 0, lng = 0, time = 0\<rparr>, \<lparr>lat = 1, lng = 2, time = 10\<rparr>,
                   \<lparr>lat = 3, lng = 4, time = 20\<rparr>] 25 = Some \<lparr>lat = 3, lng = 4\<rparr> \<and>
   getPointAtTime [\<lparr>lat = 0, lng = 0, time = 0\<rparr>, \<lparr>lat = 1, lng = 2, time = 10\<rparr>,
                   \<lparr>lat = 3, lng = 4, time = 20\<rparr>] 15 = Some \<lparr>lat = 2, lng = 3\<rparr>"
proof -
  let ?ps = "[\<lparr>lat = 0, lng = 0, time = 0\<rparr>, \<lparr>lat = 1, lng = 2, time = 10\<rparr>,
              \<lparr>lat = 3, lng = 4, time = (20::real)\<rparr>]"
  have ne: "?ps \<noteq> []" by simp
  have before: "\<forall>j < 2. time (?ps ! j) < 15"
    by (simp add: less_Suc_eq numeral_2_eq_2)
  show ?thesis
    using getPointAtTime_cases [OF ne, of "- 1" 0] getPointAtTime_cases [OF ne, of 25 0]
      getPointAtTime_cases [OF ne, of 15 2] before
    by (simp add: interpolateAtTime_def coordOf_def)
qed

section \<open>Progress animator\<close>

text \<open>
  The first half of \<^verbatim>\<open>getPositionAtProgress\<close>: the target distance for a progress value.
  The \<^verbatim>\<open>for (const segment of speedSegments)\<close> loop, with its \<^verbatim>\<open>break\<close>, carries
  \<^verbatim>\<open>timeAccumulated\<close> and \<^verbatim>\<open>targetDistance\<close>.
\<close>

fun speedSegmentWalk :: "SpeedSegment list \<Rightarrow> real \<Rightarrow> real \<Rightarrow> real \<Rightarrow> real" where
  "speedSegmentWalk [] elapsedTime timeAccumulated targetDistance = targetDistance"
| "speedSegmentWalk (segment # rest) elapsedTime timeAccumulated targetDistance =
     (if timeAccumulated + duration segment \<ge> elapsedTime then
        (let timeInSegment = elapsedTime - timeAccumulated;
             distanceInSegment = timeInSegment * speed segment
         in startDistance segment + distanceInSegment)
      else speedSegmentWalk rest elapsedTime (timeAccumulated + duration segment)
             (endDistance segment))"

text \<open>
  \<^verbatim>\<open>cumulativeDistances\<close> is not empty where the function runs (the enclosing effect
  returns early otherwise), so its last element exists.
\<close>

definition targetDistanceAtProgress :: "SpeedSegment list \<Rightarrow> real list \<Rightarrow> real \<Rightarrow> real" where
  "targetDistanceAtProgress speedSegments cumulativeDistances prog =
     (let totalDistance = last cumulativeDistances
      in if length speedSegments > 0 then
           (let totalDuration = foldl (\<lambda>sum seg. sum + duration seg) 0 speedSegments;
                elapsedTime = prog * totalDuration
            in speedSegmentWalk speedSegments elapsedTime 0 0)
         else prog * totalDistance)"

text \<open>
  C6: for the two-segment series of scenario D the target distance is 1000 at progress
  100/150 and 750 at progress 0.5.
\<close>

theorem targetDistanceAtProgress_scenario_D:
  "targetDistanceAtProgress
     [\<lparr>startDistance = 0, endDistance = 1000, duration = 100, speed = 10\<rparr>,
      \<lparr>startDistance = 1000, endDistance = 2000, duration = 50, speed = 20\<rparr>]
     cumulativeDistances (100 / 150) = 1000 \<and>
   targetDistanceAtProgress
     [\<lparr>startDistance = 0, endDistance = 1000, duration = 100, speed = 10\<rparr>,
      \<lparr>startDistance = 1000, endDistance = 2000, duration = 50, speed = 20\<rparr>]
     cumulativeDistances 0.5 = 750"
  by (simp add: targetDistanceAtProgress_def)

section \<open>Constants and ideal segment count\<close>

definition IDEAL_POMODORO_SECONDS :: real where
  "IDEAL_POMODORO_SECONDS = 25 * 60"

definition MAX_AUTO_STOP_OVERS :: int where
  "MAX_AUTO_STOP_OVERS = 23"

definition FALLBACK_SPEED_MPS :: real where
  "FALLBACK_SPEED_MPS = 13.4"

definition MIN_IDEAL_SEGMENT_SECONDS :: real where
  "MIN_IDEAL_SEGMENT_SECONDS = 20 * 60"

definition MAX_IDEAL_SEGMENT_SECONDS :: real where
  "MAX_IDEAL_SEGMENT_SECONDS = 30 * 60"

text \<open>
  \<^verbatim>\<open>Math.round\<close> rounds half up, as \<^const>\<open>round\<close> does. Every \<^typ>\<open>real\<close> is finite, so
  the \<^verbatim>\<open>!Number.isFinite\<close> test of the source is false throughout.
\<close>

definition getIdealSegmentCount :: "real \<Rightarrow> int" where
  "getIdealSegmentCount totalDurationSeconds =
     (if totalDurationSeconds \<le> 0 then 1
      else (let rawSegments = totalDurationSeconds / IDEAL_POMODORO_SECONDS
            in if rawSegments < 1 then 1
               else (let roundedSegments = round rawSegments in max 1 roundedSegments)))"

lemma getIdealSegmentCount_short: "d \<le> 1500 \<Longrightarrow> getIdealSegmentCount d = 1"
  by (auto simp: getIdealSegmentCount_def IDEAL_POMODORO_SECONDS_def Let_def round_def)

lemma getIdealSegmentCount_ge1: "1 \<le> getIdealSegmentCount d"
  by (simp add: getIdealSegmentCount_def Let_def)

section \<open>Time-point builder\<close>

text \<open>
  A parsed route: the route of the routing oracle for a response whose duration strings
  parse to finite numbers, as the oracle's \<^verbatim>\<open>"<integer>s"\<close> strings do. A duration field
  then holds the whole, non-negative seconds \<^verbatim>\<open>parseDurationSeconds\<close> returns (0 for a
  missing or unmatched string). \<^verbatim>\<open>distanceMeters\<close> is \<^term>\<open>None\<close> when the field is not a
  number. The functions of this section are \<^verbatim>\<open>buildTimePoints\<close> and its closures on such
  a route, with distances in exact arithmetic. The section after it embeds
  \<^verbatim>\<open>parseDurationSeconds\<close> and the builder on the response as it comes, where a duration
  can be \<^verbatim>\<open>NaN\<close>, and shows that the functions here are its restriction to parsed
  routes.
\<close>

record Step =
  step_polyline :: "js_string option"
  step_distanceMeters :: "real option"
  step_duration :: nat
  step_staticDuration :: nat

record Leg =
  steps :: "Step list"

record Route =
  route_duration :: nat
  route_polyline :: "js_string option"
  legs :: "Leg list"

text \<open>The variables the closure \<^verbatim>\<open>pushPoint\<close> and the step callback share.\<close>

record BuildState =
  points :: "TimePoint list"
  cumulativeTime :: real
  lastLat :: "real option"
  lastLng :: "real option"

definition pushPoint :: "BuildState \<Rightarrow> real \<Rightarrow> real \<Rightarrow> real \<Rightarrow> BuildState" where
  "pushPoint st lat' lng' t =
     (if lastLat st = Some lat' \<and> lastLng st = Some lng' then
        (if length (points st) > 0 then
           st\<lparr>points := (points st)[length (points st) - 1 :=
                            (points st ! (length (points st) - 1))\<lparr>time := t\<rparr>]\<rparr>
         else st)
      else st\<lparr>points := points st @ [\<lparr>lat = lat', lng = lng', time = t\<rparr>],
              lastLat := Some lat', lastLng := Some lng'\<rparr>)"

text \<open>\<^verbatim>\<open>encoded ? decodePolyline(encoded) : []\<close>: a missing or empty string gives no points.\<close>

definition decodeOptional :: "js_string option \<Rightarrow> Coord list" where
  "decodeOptional encoded =
     (case encoded of None \<Rightarrow> [] | Some e \<Rightarrow> if e = [] then [] else decodePolyline e)"

text \<open>\<^verbatim>\<open>parseDurationSeconds(step?.duration) || parseDurationSeconds(step?.staticDuration)\<close>\<close>

definition parsedStepDuration :: "Step \<Rightarrow> real" where
  "parsedStepDuration step =
     (if step_duration step \<noteq> 0 then real (step_duration step)
      else real (step_staticDuration step))"

text \<open>The first loop of a step: the distance of each sub-segment.\<close>

definition segmentDistances :: "Coord list \<Rightarrow> real list" where
  "segmentDistances stepPolyline =
     map (\<lambda>i. let prev = stepPolyline ! (i - 1); curr = stepPolyline ! i
              in calculateDistance (lat prev) (lng prev) (lat curr) (lng curr))
         [1 ..< length stepPolyline]"

text \<open>The second loop of a step: the duration spread over the vertices by distance.\<close>

function distributeLoop ::
  "Coord list \<Rightarrow> real list \<Rightarrow> real \<Rightarrow> real \<Rightarrow> nat \<Rightarrow> BuildState \<Rightarrow> BuildState" where
  "distributeLoop stepPolyline stepDistances stepTotalDistance stepDuration i st =
     (if i < length stepPolyline then
        (let segmentDistance = stepDistances ! (i - 1);
             fraction = segmentDistance / stepTotalDistance;
             deltaTime = stepDuration * fraction;
             st' = st\<lparr>cumulativeTime := cumulativeTime st + deltaTime\<rparr>;
             point = stepPolyline ! i
         in distributeLoop stepPolyline stepDistances stepTotalDistance stepDuration (i + 1)
              (pushPoint st' (lat point) (lng point) (cumulativeTime st')))
      else st)"
  by pat_completeness auto
termination
  by (relation "measure (\<lambda>(stepPolyline, stepDistances, stepTotalDistance, stepDuration, i, st).
        length stepPolyline - i)") auto

declare distributeLoop.simps [simp del]

definition processStep :: "BuildState \<Rightarrow> Step \<Rightarrow> BuildState" where
  "processStep st step =
     (let stepPolyline = decodeOptional (step_polyline step)
      in if length stepPolyline = 0 then
           (let emptyDuration = parsedStepDuration step
            in st\<lparr>cumulativeTime := cumulativeTime st + emptyDuration\<rparr>)
         else
           (let stepDistances = segmentDistances stepPolyline;
                stepTotalDistance = foldl (+) 0 stepDistances;
                declaredDistance =
                  (case step_distanceMeters step of
                     Some d \<Rightarrow> if d > 0 then d else stepTotalDistance
                   | None \<Rightarrow> stepTotalDistance);
                stepDuration =
                  (if parsedStepDuration step = 0 \<and> declaredDistance > 0
                   then declaredDistance / FALLBACK_SPEED_MPS
                   else parsedStepDuration step);
                st1 =
                  (if length (points st) = 0 then
                     (let firstPoint = stepPolyline ! 0
                      in pushPoint st (lat firstPoint) (lng firstPoint) (cumulativeTime st))
                   else st)
            in if stepDuration = 0 \<or> stepTotalDistance = 0 then
                 (let st2 = st1\<lparr>cumulativeTime := cumulativeTime st1 + stepDuration\<rparr>;
                      finalPoint = stepPolyline ! (length stepPolyline - 1)
                  in pushPoint st2 (lat finalPoint) (lng finalPoint) (cumulativeTime st2))
               else distributeLoop stepPolyline stepDistances stepTotalDistance stepDuration 1 st1))"

definition buildTimePoints :: "Route \<Rightarrow> TimePoint list" where
  "buildTimePoints route =
     (if length (legs route) = 0 then []
      else
        (let st0 = \<lparr>points = [], cumulativeTime = 0, lastLat = None, lastLng = None\<rparr>;
             st = foldl (\<lambda>st leg. foldl processStep st (steps leg)) st0 (legs route)
         in if length (points st) > 0
            then (points st)[0 := (points st ! 0)\<lparr>time := 0\<rparr>]
            else points st))"

subsection \<open>The times never decrease\<close>

text \<open>
  The invariant of the construction: the times of the samples are sorted, none is
  negative and none is after the running \<^verbatim>\<open>cumulativeTime\<close>.
\<close>

definition timeline_ok :: "BuildState \<Rightarrow> bool" where
  "timeline_ok st \<longleftrightarrow>
     sorted (map time (points st)) \<and> 0 \<le> cumulativeTime st \<and>
     (\<forall>p \<in> set (points st). 0 \<le> time p \<and> time p \<le> cumulativeTime st)"

lemma update_last: "xs \<noteq> [] \<Longrightarrow> xs[length xs - 1 := v] = butlast xs @ [v]"
  by (induction xs rule: rev_induct) (auto simp: list_update_append)

lemma timeline_ok_advance:
  "timeline_ok st \<Longrightarrow> 0 \<le> d \<Longrightarrow> timeline_ok (st\<lparr>cumulativeTime := cumulativeTime st + d\<rparr>)"
  by (fastforce simp: timeline_ok_def)

lemma timeline_ok_pushPoint:
  assumes "timeline_ok st"
  shows "timeline_ok (pushPoint st a b (cumulativeTime st))"
proof (cases "lastLat st = Some a \<and> lastLng st = Some b")
  case True
  show ?thesis
  proof (cases "points st = []")
    case True
    with assms \<open>lastLat st = Some a \<and> lastLng st = Some b\<close> show ?thesis
      by (simp add: pushPoint_def)
  next
    case False
    then obtain ys y where ys: "points st = ys @ [y]"
      by (metis append_butlast_last_id)
    have upd: "(points st)[length (points st) - 1 := (points st ! (length (points st) - 1))\<lparr>time := cumulativeTime st\<rparr>]
                = ys @ [y\<lparr>time := cumulativeTime st\<rparr>]"
      using update_last [OF False] by (simp add: ys)
    have "timeline_ok (st\<lparr>points := ys @ [y\<lparr>time := cumulativeTime st\<rparr>]\<rparr>)"
      using assms by (auto simp: timeline_ok_def ys sorted_append)
    with True False upd show ?thesis by (simp add: pushPoint_def)
  qed
next
  case False
  have "timeline_ok (st\<lparr>points := points st @ [\<lparr>lat = a, lng = b, time = cumulativeTime st\<rparr>],
              lastLat := Some a, lastLng := Some b\<rparr>)"
    using assms by (auto simp: timeline_ok_def sorted_append)
  with False show ?thesis by (auto simp: pushPoint_def)
qed

lemma timeline_ok_advance_push:
  "timeline_ok st \<Longrightarrow> 0 \<le> d \<Longrightarrow>
   timeline_ok (pushPoint (st\<lparr>cumulativeTime := cumulativeTime st + d\<rparr>) a b (cumulativeTime st + d))"
  using timeline_ok_pushPoint [OF timeline_ok_advance, of st d a b] by simp

lemma timeline_ok_distributeLoop:
  assumes "timeline_ok st" "0 \<le> stepDuration" "0 \<le> stepTotalDistance"
    and "\<forall>k < length stepPolyline - 1. 0 \<le> stepDistances ! k" and "0 < i"
  shows "timeline_ok (distributeLoop stepPolyline stepDistances stepTotalDistance stepDuration i st)"
  using assms
proof (induction stepPolyline stepDistances stepTotalDistance stepDuration i st rule: distributeLoop.induct)
  case (1 stepPolyline stepDistances stepTotalDistance stepDuration i st)
  show ?case
  proof (cases "i < length stepPolyline")
    case False
    then show ?thesis using 1(2) by (subst distributeLoop.simps) simp
  next
    case True
    have "0 \<le> stepDistances ! (i - 1)" using True 1(5,6) by (cases i) auto
    then have d: "0 \<le> stepDuration * (stepDistances ! (i - 1) / stepTotalDistance)"
      using 1(3,4) by simp
    show ?thesis
      apply (subst distributeLoop.simps)
      using 1(1) [OF True refl refl refl refl refl] 1(2-6) d True
      apply (simp add: Let_def timeline_ok_advance_push)
      done
  qed
qed

lemma segmentDistances_nonneg: "k < length stepPolyline - 1 \<Longrightarrow> 0 \<le> segmentDistances stepPolyline ! k"
  by (simp add: segmentDistances_def Let_def calculateDistance_nonneg)

lemma foldl_add_nonneg: "(0::real) \<le> a \<Longrightarrow> \<forall>x \<in> set xs. 0 \<le> x \<Longrightarrow> 0 \<le> foldl (+) a xs"
  by (induction xs arbitrary: a) auto

lemma segmentDistances_total_nonneg: "0 \<le> foldl (+) 0 (segmentDistances stepPolyline)"
  by (rule foldl_add_nonneg) (auto simp: segmentDistances_def Let_def calculateDistance_nonneg)

lemma parsedStepDuration_nonneg: "0 \<le> parsedStepDuration step"
  by (simp add: parsedStepDuration_def)

lemma timeline_ok_processStep:
  assumes "timeline_ok st"
  shows "timeline_ok (processStep st step)"
proof -
  define sp where "sp = decodeOptional (step_polyline step)"
  define total where "total = foldl (+) 0 (segmentDistances sp)"
  define declared where "declared =
     (case step_distanceMeters step of Some d \<Rightarrow> if d > 0 then d else total | None \<Rightarrow> total)"
  define dur where "dur =
     (if parsedStepDuration step = 0 \<and> declared > 0 then declared / FALLBACK_SPEED_MPS
      else parsedStepDuration step)"
  define st1 where "st1 =
     (if length (points st) = 0 then pushPoint st (lat (sp ! 0)) (lng (sp ! 0)) (cumulativeTime st)
      else st)"
  have dur0: "0 \<le> dur"
    using parsedStepDuration_nonneg [of step] by (auto simp: dur_def FALLBACK_SPEED_MPS_def)
  have total0: "0 \<le> total" unfolding total_def by (rule segmentDistances_total_nonneg)
  have st1_ok: "timeline_ok st1"
    using assms by (simp add: st1_def timeline_ok_pushPoint)
  have eq: "processStep st step =
     (if length sp = 0 then st\<lparr>cumulativeTime := cumulativeTime st + parsedStepDuration step\<rparr>
      else if dur = 0 \<or> total = 0 then
        pushPoint (st1\<lparr>cumulativeTime := cumulativeTime st1 + dur\<rparr>)
          (lat (sp ! (length sp - 1))) (lng (sp ! (length sp - 1)))
          (cumulativeTime (st1\<lparr>cumulativeTime := cumulativeTime st1 + dur\<rparr>))
      else distributeLoop sp (segmentDistances sp) total dur 1 st1)"
    by (simp only: processStep_def Let_def sp_def total_def declared_def dur_def st1_def)
  have loop: "timeline_ok (distributeLoop sp (segmentDistances sp) total dur 1 st1)"
    using segmentDistances_nonneg [of _ sp]
    by (intro timeline_ok_distributeLoop st1_ok dur0 total0) auto
  show ?thesis
    unfolding eq using assms parsedStepDuration_nonneg [of step] st1_ok dur0 loop
    by (simp add: timeline_ok_advance timeline_ok_advance_push)
qed

lemma timeline_ok_steps: "timeline_ok st \<Longrightarrow> timeline_ok (foldl processStep st ss)"
  by (induction ss arbitrary: st) (auto simp: timeline_ok_processStep)

lemma timeline_ok_legs:
  "timeline_ok st \<Longrightarrow> timeline_ok (foldl (\<lambda>st leg. foldl processStep st (steps leg)) st ls)"
  by (induction ls arbitrary: st) (auto simp: timeline_ok_steps)

lemma sorted_reset_first:
  "sorted (map time ps) \<Longrightarrow> \<forall>p \<in> set ps. 0 \<le> time p \<Longrightarrow> ps \<noteq> [] \<Longrightarrow>
   sorted (map time (ps[0 := (ps ! 0)\<lparr>time := 0\<rparr>]))"
  by (cases ps) auto

text \<open>
  On a parsed route, and with distances in exact arithmetic, the series has first time
  exactly 0 (when it has an element) and times that never decrease.
\<close>

lemma buildTimePoints_parsed_monotone:
  "(buildTimePoints route \<noteq> [] \<longrightarrow> time (hd (buildTimePoints route)) = 0) \<and>
   sorted (map time (buildTimePoints route))"
proof -
  define st where "st = foldl (\<lambda>st leg. foldl processStep st (steps leg))
      \<lparr>points = [], cumulativeTime = 0, lastLat = None, lastLng = None\<rparr> (legs route)"
  have "timeline_ok \<lparr>points = [], cumulativeTime = 0, lastLat = None, lastLng = None\<rparr>"
    by (simp add: timeline_ok_def)
  then have ok: "timeline_ok st" unfolding st_def by (rule timeline_ok_legs)
  have res: "buildTimePoints route =
          (if length (legs route) = 0 then []
           else if length (points st) > 0 then (points st)[0 := (points st ! 0)\<lparr>time := 0\<rparr>]
           else points st)"
    by (simp add: buildTimePoints_def Let_def st_def)
  have first: "buildTimePoints route \<noteq> [] \<longrightarrow> time (hd (buildTimePoints route)) = 0"
    unfolding res by (cases "points st") auto
  have mono: "sorted (map time (buildTimePoints route))"
    unfolding res using ok sorted_reset_first [of "points st"]
    by (auto simp: timeline_ok_def)
  from first mono show ?thesis by simp
qed

subsection \<open>An example route\<close>

text \<open>
  A route of 3000 s with one leg of two steps of 1500 s, each step's polyline a single
  point: (0, 0), then (1, 0).
\<close>

definition exampleRoute :: Route where
  "exampleRoute =
     \<lparr>route_duration = 3000, route_polyline = None,
      legs = [\<lparr>steps =
        [\<lparr>step_polyline = Some (js ''??''), step_distanceMeters = None,
          step_duration = 0, step_staticDuration = 1500\<rparr>,
         \<lparr>step_polyline = Some (js ''_ibE?''), step_distanceMeters = None,
          step_duration = 0, step_staticDuration = 1500\<rparr>]\<rparr>]\<rparr>"

lemma js_empty_iff: "js s = [] \<longleftrightarrow> s = []"
  by (simp add: js_def)

lemma decode_single_points:
  "decodePolyline (js ''??'') = [\<lparr>lat = 0, lng = 0\<rparr>]"
  "decodePolyline (js ''_ibE?'') = [\<lparr>lat = 1, lng = 0\<rparr>]"
  by code_simp+

lemma buildTimePoints_exampleRoute:
  "buildTimePoints exampleRoute =
     [\<lparr>lat = 0, lng = 0, time = 0\<rparr>, \<lparr>lat = 1, lng = 0, time = 3000\<rparr>]"
  by (simp add: buildTimePoints_def exampleRoute_def processStep_def decodeOptional_def
      js_empty_iff decode_single_points segmentDistances_def parsedStepDuration_def
      pushPoint_def Let_def)

lemma buildTimePoints_parsed_monotone_example:
  "buildTimePoints exampleRoute \<noteq> [] \<and> time (hd (buildTimePoints exampleRoute)) = 0 \<and>
   sorted (map time (buildTimePoints exampleRoute))"
  using buildTimePoints_parsed_monotone [of exampleRoute]
  by (simp add: buildTimePoints_exampleRoute)

section \<open>The time-point builder on the raw response\<close>

subsection \<open>Numbers that are not finite\<close>

text \<open>
  A number of the language: \<^verbatim>\<open>NaN\<close>, an infinity, or a finite number (a \<^typ>\<open>real\<close>: the
  rounding of finite results is left out, as before, and so is the sign of zero).
  \<^verbatim>\<open>+\<close>, \<^verbatim>\<open>*\<close>, \<^verbatim>\<open><=\<close>, truthiness, \<^verbatim>\<open>||\<close> and \<^verbatim>\<open>Math.round\<close> follow IEEE 754 and
  the language on the values that are not finite.
\<close>

datatype number = NaN | PosInf | NegInf | Num real

fun js_add :: "number \<Rightarrow> number \<Rightarrow> number" where
  "js_add (Num a) (Num b) = Num (a + b)"
| "js_add NaN y = NaN"
| "js_add x NaN = NaN"
| "js_add PosInf NegInf = NaN"
| "js_add NegInf PosInf = NaN"
| "js_add PosInf y = PosInf"
| "js_add x PosInf = PosInf"
| "js_add NegInf y = NegInf"
| "js_add x NegInf = NegInf"

fun js_neg :: "number \<Rightarrow> number" where
  "js_neg (Num a) = Num (- a)"
| "js_neg NaN = NaN"
| "js_neg PosInf = NegInf"
| "js_neg NegInf = PosInf"

fun js_mul :: "number \<Rightarrow> number \<Rightarrow> number" where
  "js_mul (Num a) (Num b) = Num (a * b)"
| "js_mul NaN y = NaN"
| "js_mul x NaN = NaN"
| "js_mul PosInf (Num b) = (if b = 0 then NaN else if 0 < b then PosInf else NegInf)"
| "js_mul NegInf (Num b) = (if b = 0 then NaN else if 0 < b then NegInf else PosInf)"
| "js_mul (Num a) PosInf = (if a = 0 then NaN else if 0 < a then PosInf else NegInf)"
| "js_mul (Num a) NegInf = (if a = 0 then NaN else if 0 < a then NegInf else PosInf)"
| "js_mul PosInf PosInf = PosInf"
| "js_mul NegInf NegInf = PosInf"
| "js_mul PosInf NegInf = NegInf"
| "js_mul NegInf PosInf = NegInf"

fun js_le :: "number \<Rightarrow> number \<Rightarrow> bool" where
  "js_le (Num a) (Num b) \<longleftrightarrow> a \<le> b"
| "js_le NaN y \<longleftrightarrow> False"
| "js_le x NaN \<longleftrightarrow> False"
| "js_le NegInf y \<longleftrightarrow> True"
| "js_le x PosInf \<longleftrightarrow> True"
| "js_le PosInf y \<longleftrightarrow> False"
| "js_le x NegInf \<longleftrightarrow> False"

fun truthy :: "number \<Rightarrow> bool" where
  "truthy (Num a) \<longleftrightarrow> a \<noteq> 0"
| "truthy NaN \<longleftrightarrow> False"
| "truthy PosInf \<longleftrightarrow> True"
| "truthy NegInf \<longleftrightarrow> True"

definition js_or :: "number \<Rightarrow> number \<Rightarrow> number" where
  "js_or a b = (if truthy a then a else b)"

fun Math_round :: "number \<Rightarrow> number" where
  "Math_round (Num a) = Num (of_int (round a))"
| "Math_round x = x"

subsection \<open>parseDurationSeconds\<close>

text \<open>
  \<^verbatim>\<open>duration.match(/([\d.]+)s/)\<close>: the leftmost run of digits and dots that an \<^verbatim>\<open>s\<close>
  (code 115) follows. A run is matched whole or not at all, since no unit of the run is
  an \<^verbatim>\<open>s\<close>. \<^term>\<open>matchDuration\<close> scans the string with the run read so far.
\<close>

definition isDigit :: "nat \<Rightarrow> bool" where
  "isDigit c \<longleftrightarrow> 48 \<le> c \<and> c \<le> 57"

definition isDigitOrDot :: "nat \<Rightarrow> bool" where
  "isDigitOrDot c \<longleftrightarrow> isDigit c \<or> c = 46"

fun matchDuration :: "js_string \<Rightarrow> js_string \<Rightarrow> js_string option" where
  "matchDuration run [] = None"
| "matchDuration run (c # cs) =
     (if isDigitOrDot c then matchDuration (run @ [c]) cs
      else if c = 115 \<and> run \<noteq> [] then Some run
      else matchDuration [] cs)"

text \<open>
  \<^verbatim>\<open>parseFloat\<close> on a string of digits and dots: the longest prefix that is a decimal
  literal (digits, then possibly a dot and digits; or a dot and digits), \<^verbatim>\<open>NaN\<close> when
  there is none, as for \<^verbatim>\<open>"."\<close>. A value that rounds beyond the largest double is
  \<^verbatim>\<open>Infinity\<close>.
\<close>

definition digitsValue :: "js_string \<Rightarrow> nat" where
  "digitsValue ds = foldl (\<lambda>v c. 10 * v + (c - 48)) 0 ds"

definition parseFloat :: "js_string \<Rightarrow> number" where
  "parseFloat s =
     (let whole = takeWhile isDigit s;
          after = dropWhile isDigit s;
          fraction = (case after of [] \<Rightarrow> [] | c # cs \<Rightarrow> if c = 46 then takeWhile isDigit cs else [])
      in if whole = [] \<and> fraction = [] then NaN
         else (let v = real (digitsValue whole) + real (digitsValue fraction) / 10 ^ length fraction
               in if 2 ^ 1024 - 2 ^ 970 \<le> v then PosInf else Num v))"

text \<open>\<^verbatim>\<open>!duration\<close> holds for a missing and for an empty string.\<close>

definition parseDurationSeconds :: "js_string option \<Rightarrow> number" where
  "parseDurationSeconds durationText =
     (case durationText of
        None \<Rightarrow> Num 0
      | Some d \<Rightarrow>
          if d = [] then Num 0
          else (case matchDuration [] d of
                  None \<Rightarrow> Num 0
                | Some m \<Rightarrow> Math_round (parseFloat m)))"

subsection \<open>buildTimePoints with the numbers of the source\<close>

text \<open>
  A step of the response carries its duration strings; a time is a \<^typ>\<open>number\<close>. The
  definitions follow \<^verbatim>\<open>buildTimePoints\<close> line by line, as those of the parsed route do.
  Distances stay in exact arithmetic, where \<^const>\<open>calculateDistance\<close> is always finite; in
  double arithmetic it is \<^verbatim>\<open>NaN\<close> when the haversine term rounds above 1.
\<close>

record RawStep =
  raw_polyline :: "js_string option"
  raw_distanceMeters :: "real option"
  raw_duration :: "js_string option"
  raw_staticDuration :: "js_string option"

record RawLeg =
  raw_steps :: "RawStep list"

record RawRoute =
  raw_legs :: "RawLeg list"

record RawTimePoint = Coord +
  rawTime :: number

record RawBuildState =
  rawPoints :: "RawTimePoint list"
  rawCumulativeTime :: number
  rawLastLat :: "real option"
  rawLastLng :: "real option"

definition pushPoint_raw :: "RawBuildState \<Rightarrow> real \<Rightarrow> real \<Rightarrow> number \<Rightarrow> RawBuildState" where
  "pushPoint_raw st lat' lng' t =
     (if rawLastLat st = Some lat' \<and> rawLastLng st = Some lng' then
        (if length (rawPoints st) > 0 then
           st\<lparr>rawPoints := (rawPoints st)[length (rawPoints st) - 1 :=
                               (rawPoints st ! (length (rawPoints st) - 1))\<lparr>rawTime := t\<rparr>]\<rparr>
         else st)
      else st\<lparr>rawPoints := rawPoints st @ [\<lparr>lat = lat', lng = lng', rawTime = t\<rparr>],
              rawLastLat := Some lat', rawLastLng := Some lng'\<rparr>)"

definition rawStepDuration :: "RawStep \<Rightarrow> number" where
  "rawStepDuration step =
     js_or (parseDurationSeconds (raw_duration step)) (parseDurationSeconds (raw_staticDuration step))"

function distributeLoop_raw ::
  "Coord list \<Rightarrow> real list \<Rightarrow> real \<Rightarrow> number \<Rightarrow> nat \<Rightarrow> RawBuildState \<Rightarrow> RawBuildState" where
  "distributeLoop_raw stepPolyline stepDistances stepTotalDistance stepDuration i st =
     (if i < length stepPolyline then
        (let segmentDistance = stepDistances ! (i - 1);
             fraction = segmentDistance / stepTotalDistance;
             deltaTime = js_mul stepDuration (Num fraction);
             st' = st\<lparr>rawCumulativeTime := js_add (rawCumulativeTime st) deltaTime\<rparr>;
             point = stepPolyline ! i
         in distributeLoop_raw stepPolyline stepDistances stepTotalDistance stepDuration (i + 1)
              (pushPoint_raw st' (lat point) (lng point) (rawCumulativeTime st')))
      else st)"
  by pat_completeness auto
termination
  by (relation "measure (\<lambda>(stepPolyline, stepDistances, stepTotalDistance, stepDuration, i, st).
        length stepPolyline - i)") auto

declare distributeLoop_raw.simps [simp del]

definition processStep_raw :: "RawBuildState \<Rightarrow> RawStep \<Rightarrow> RawBuildState" where
  "processStep_raw st step =
     (let stepPolyline = decodeOptional (raw_polyline step)
      in if length stepPolyline = 0 then
           (let emptyDuration = rawStepDuration step
            in st\<lparr>rawCumulativeTime := js_add (rawCumulativeTime st) emptyDuration\<rparr>)
         else
           (let stepDistances = segmentDistances stepPolyline;
                stepTotalDistance = foldl (+) 0 stepDistances;
                declaredDistance =
                  (case raw_distanceMeters step of
                     Some d \<Rightarrow> if d > 0 then d else stepTotalDistance
                   | None \<Rightarrow> stepTotalDistance);
                stepDuration =
                  (if rawStepDuration step = Num 0 \<and> declaredDistance > 0
                   then Num (declaredDistance / FALLBACK_SPEED_MPS)
                   else rawStepDuration step);
                st1 =
                  (if length (rawPoints st) = 0 then
                     (let firstPoint = stepPolyline ! 0
                      in pushPoint_raw st (lat firstPoint) (lng firstPoint) (rawCumulativeTime st))
                   else st)
            in if stepDuration = Num 0 \<or> stepTotalDistance = 0 then
                 (let st2 = st1\<lparr>rawCumulativeTime := js_add (rawCumulativeTime st1) stepDuration\<rparr>;
                      finalPoint = stepPolyline ! (length stepPolyline - 1)
                  in pushPoint_raw st2 (lat finalPoint) (lng finalPoint) (rawCumulativeTime st2))
               else distributeLoop_raw stepPolyline stepDistances stepTotalDistance stepDuration 1 st1))"

definition buildTimePoints_raw :: "RawRoute \<Rightarrow> RawTimePoint list" where
  "buildTimePoints_raw route =
     (if length (raw_legs route) = 0 then []
      else
        (let st0 = \<lparr>rawPoints = [], rawCumulativeTime = Num 0, rawLastLat = None, rawLastLng = None\<rparr>;
             st = foldl (\<lambda>st leg. foldl processStep_raw st (raw_steps leg)) st0 (raw_legs route)
         in if length (rawPoints st) > 0
            then (rawPoints st)[0 := (rawPoints st ! 0)\<lparr>rawTime := Num 0\<rparr>]
            else rawPoints st))"

text \<open>Non-decreasing, by the comparison \<^verbatim>\<open><=\<close> of the language.\<close>

fun nondecreasing :: "number list \<Rightarrow> bool" where
  "nondecreasing (a # b # later) \<longleftrightarrow> js_le a b \<and> nondecreasing (b # later)"
| "nondecreasing later \<longleftrightarrow> True"

text \<open>
  A response of one leg with two steps, each step's polyline a single point, (0, 0)
  then (1, 0); the first step's \<^verbatim>\<open>staticDuration\<close> is \<^verbatim>\<open>".s"\<close>, the second's \<^verbatim>\<open>"10s"\<close>.
\<close>

definition malformedDurationRoute :: RawRoute where
  "malformedDurationRoute =
     \<lparr>raw_legs = [\<lparr>raw_steps =
        [\<lparr>raw_polyline = Some (js ''??''), raw_distanceMeters = None,
          raw_duration = None, raw_staticDuration = Some (js ''.s'')\<rparr>,
         \<lparr>raw_polyline = Some (js ''_ibE?''), raw_distanceMeters = None,
          raw_duration = None, raw_staticDuration = Some (js ''10s'')\<rparr>]\<rparr>]\<rparr>"

lemma parseDurationSeconds_examples:
  "parseDurationSeconds None = Num 0"
  "parseDurationSeconds (Some (js ''.s'')) = NaN"
  "parseDurationSeconds (Some (js ''10s'')) = Num 10"
  by (simp_all add: parseDurationSeconds_def js_def isDigitOrDot_def isDigit_def parseFloat_def
      digitsValue_def Let_def)

lemma buildTimePoints_raw_malformed:
  "buildTimePoints_raw malformedDurationRoute =
     [\<lparr>lat = 0, lng = 0, rawTime = Num 0\<rparr>, \<lparr>lat = 1, lng = 0, rawTime = NaN\<rparr>]"
  by (simp add: buildTimePoints_raw_def malformedDurationRoute_def processStep_raw_def
      decodeOptional_def js_empty_iff decode_single_points segmentDistances_def
      rawStepDuration_def parseDurationSeconds_examples js_or_def pushPoint_raw_def Let_def)

text \<open>
  C3 does not hold of the code for every route. \<^verbatim>\<open>parseDurationSeconds\<close> returns \<^verbatim>\<open>NaN\<close>
  for \<^verbatim>\<open>".s"\<close>, \<^verbatim>\<open>buildTimePoints\<close> adds it to \<^verbatim>\<open>cumulativeTime\<close>, and the series it
  returns for this response has times 0 and \<^verbatim>\<open>NaN\<close>: the first time is 0, but the times
  are not non-decreasing, since \<^verbatim>\<open>0 <= NaN\<close> is false.
\<close>

theorem buildTimePoints_malformed_duration:
  "map rawTime (buildTimePoints_raw malformedDurationRoute) = [Num 0, NaN] \<and>
   \<not> nondecreasing (map rawTime (buildTimePoints_raw malformedDurationRoute))"
  by (simp add: buildTimePoints_raw_malformed)

subsection \<open>Responses whose durations are finite\<close>

text \<open>
  A step of the response parses to a parsed step when its two duration strings parse
  to finite numbers, the whole seconds of the parsed step; the other fields are the same.
\<close>

definition stepParses :: "RawStep \<Rightarrow> Step \<Rightarrow> bool" where
  "stepParses raw step \<longleftrightarrow>
     raw_polyline raw = step_polyline step \<and>
     raw_distanceMeters raw = step_distanceMeters step \<and>
     parseDurationSeconds (raw_duration raw) = Num (real (step_duration step)) \<and>
     parseDurationSeconds (raw_staticDuration raw) = Num (real (step_staticDuration step))"

definition routeParses :: "RawRoute \<Rightarrow> Route \<Rightarrow> bool" where
  "routeParses raw route \<longleftrightarrow>
     list_all2 (\<lambda>rawLeg leg. list_all2 stepParses (raw_steps rawLeg) (steps leg))
       (raw_legs raw) (legs route)"

definition liftPoint :: "TimePoint \<Rightarrow> RawTimePoint" where
  "liftPoint p = \<lparr>lat = lat p, lng = lng p, rawTime = Num (time p)\<rparr>"

definition liftState :: "BuildState \<Rightarrow> RawBuildState" where
  "liftState st =
     \<lparr>rawPoints = map liftPoint (points st), rawCumulativeTime = Num (cumulativeTime st),
      rawLastLat = lastLat st, rawLastLng = lastLng st\<rparr>"

lemma liftPoint_time: "liftPoint (p\<lparr>time := t\<rparr>) = (liftPoint p)\<lparr>rawTime := Num t\<rparr>"
  by (simp add: liftPoint_def)

lemma pushPoint_raw_lift:
  "pushPoint_raw (liftState st) a b (Num t) = liftState (pushPoint st a b t)"
proof (cases "points st = []")
  case True
  then show ?thesis by (simp add: pushPoint_raw_def pushPoint_def liftState_def liftPoint_def)
next
  case False
  then have n: "length (points st) - 1 < length (points st)" by simp
  show ?thesis
    using False n
    by (simp add: pushPoint_raw_def pushPoint_def liftState_def map_update liftPoint_time)
       (simp add: liftPoint_def)
qed

lemma rawStepDuration_parsed:
  "stepParses raw step \<Longrightarrow> rawStepDuration raw = Num (parsedStepDuration step)"
  by (simp add: stepParses_def rawStepDuration_def parsedStepDuration_def js_or_def)

lemma liftState_advance:
  "(liftState st)\<lparr>rawCumulativeTime := js_add (rawCumulativeTime (liftState st)) (Num d)\<rparr> =
   liftState (st\<lparr>cumulativeTime := cumulativeTime st + d\<rparr>)"
  by (simp add: liftState_def)

lemma distributeLoop_raw_lift:
  "distributeLoop_raw sp ds tot (Num dur) i (liftState st) =
   liftState (distributeLoop sp ds tot dur i st)"
proof (induction sp ds tot dur i st rule: distributeLoop.induct)
  case (1 sp ds tot dur i st)
  show ?case
  proof (cases "i < length sp")
    case False
    then show ?thesis
      by (subst distributeLoop_raw.simps, subst distributeLoop.simps) simp
  next
    case True
    define d where "d = dur * (ds ! (i - 1) / tot)"
    define st' where "st' = st\<lparr>cumulativeTime := cumulativeTime st + d\<rparr>"
    define st'' where "st'' = pushPoint st' (lat (sp ! i)) (lng (sp ! i)) (cumulativeTime st')"
    have l: "distributeLoop sp ds tot dur i st = distributeLoop sp ds tot dur (i + 1) st''"
      using True by (subst distributeLoop.simps) (simp add: Let_def st''_def st'_def d_def)
    have raw': "(liftState st)\<lparr>rawCumulativeTime :=
                   js_add (rawCumulativeTime (liftState st)) (js_mul (Num dur) (Num (ds ! (i - 1) / tot)))\<rparr>
                = liftState st'"
      using liftState_advance [of st d] by (simp add: st'_def d_def)
    have ct: "rawCumulativeTime (liftState st') = Num (cumulativeTime st')"
      by (simp add: liftState_def)
    have r: "distributeLoop_raw sp ds tot (Num dur) i (liftState st) =
             distributeLoop_raw sp ds tot (Num dur) (i + 1) (liftState st'')"
      using True
      by (subst distributeLoop_raw.simps)
         (simp only: Let_def raw' ct pushPoint_raw_lift st''_def if_True)
    have "distributeLoop_raw sp ds tot (Num dur) (i + 1) (liftState st'') =
          liftState (distributeLoop sp ds tot dur (i + 1) st'')"
      unfolding st''_def st'_def d_def by (rule "1.IH" [OF True refl refl refl refl refl])
    with l r show ?thesis by simp
  qed
qed

lemma processStep_raw_lift:
  assumes "stepParses raw step"
  shows "processStep_raw (liftState st) raw = liftState (processStep st step)"
proof -
  have pl: "raw_polyline raw = step_polyline step" and dm: "raw_distanceMeters raw = step_distanceMeters step"
    using assms by (simp_all add: stepParses_def)
  note dur = rawStepDuration_parsed [OF assms]
  have ct: "rawCumulativeTime (liftState s) = Num (cumulativeTime s)" for s
    by (simp add: liftState_def)
  have len: "length (rawPoints (liftState s)) = length (points s)" for s
    by (simp add: liftState_def)
  have adv: "(liftState s)\<lparr>rawCumulativeTime := Num (cumulativeTime s + d)\<rparr> =
             liftState (s\<lparr>cumulativeTime := cumulativeTime s + d\<rparr>)" for s d
    by (simp add: liftState_def)
  have if_lift: "(if c then liftState x else liftState y) = liftState (if c then x else y)" for c x y
    by simp
  have if_num: "(if c then Num x else Num y) = Num (if c then x else y)" for c x y
    by simp
  show ?thesis
    unfolding processStep_raw_def processStep_def Let_def pl dm dur ct len
    by (simp add: pushPoint_raw_lift adv distributeLoop_raw_lift ct if_num cong: if_cong)
qed

lemma foldl_lift:
  assumes "list_all2 R xs ys"
    and "\<And>s x y. R x y \<Longrightarrow> f (liftState s) x = liftState (g s y)"
  shows "foldl f (liftState s) xs = liftState (foldl g s ys)"
  using assms(1)
proof (induction xs ys arbitrary: s rule: list_all2_induct)
  case Nil
  then show ?case by simp
next
  case (Cons x xs y ys)
  then show ?case by (simp add: assms(2))
qed

lemma steps_lift:
  "list_all2 stepParses rs ss \<Longrightarrow>
   foldl processStep_raw (liftState s) rs = liftState (foldl processStep s ss)"
  by (rule foldl_lift [where R = stepParses]) (simp_all add: processStep_raw_lift)

text \<open>On a response that parses, the builder is the builder of the parsed route.\<close>

lemma buildTimePoints_raw_parsed:
  assumes "routeParses raw route"
  shows "buildTimePoints_raw raw = map liftPoint (buildTimePoints route)"
proof -
  have len: "length (raw_legs raw) = length (legs route)"
    using assms by (simp add: routeParses_def list_all2_lengthD)
  have init: "\<lparr>rawPoints = [], rawCumulativeTime = Num 0, rawLastLat = None, rawLastLng = None\<rparr> =
              liftState \<lparr>points = [], cumulativeTime = 0, lastLat = None, lastLng = None\<rparr>"
    by (simp add: liftState_def)
  have fold: "foldl (\<lambda>st leg. foldl processStep_raw st (raw_steps leg))
                (liftState \<lparr>points = [], cumulativeTime = 0, lastLat = None, lastLng = None\<rparr>)
                (raw_legs raw) =
              liftState (foldl (\<lambda>st leg. foldl processStep st (steps leg))
                \<lparr>points = [], cumulativeTime = 0, lastLat = None, lastLng = None\<rparr> (legs route))"
    using assms unfolding routeParses_def
    by (rule foldl_lift) (simp add: steps_lift)
  show ?thesis
    unfolding buildTimePoints_raw_def buildTimePoints_def Let_def len init fold
    by (simp add: liftState_def map_update liftPoint_time)
qed

lemma nondecreasing_Num: "sorted xs \<Longrightarrow> nondecreasing (map Num xs)"
proof (induction xs rule: induct_list012)
  case 1 then show ?case by simp
next
  case (2 x) then show ?case by simp
next
  case (3 x y zs) then show ?case by simp
qed

text \<open>
  So the times never decrease where every duration string parses to a finite number
  (and distances are exact).
\<close>

lemma buildTimePoints_raw_finite:
  assumes "routeParses raw route"
  shows "nondecreasing (map rawTime (buildTimePoints_raw raw))"
proof -
  have eq: "map rawTime (buildTimePoints_raw raw) = map Num (map time (buildTimePoints route))"
    by (simp add: buildTimePoints_raw_parsed [OF assms] liftPoint_def comp_def)
  have "sorted (map time (buildTimePoints route))"
    using buildTimePoints_parsed_monotone [of route] by simp
  then show ?thesis unfolding eq by (rule nondecreasing_Num)
qed

definition exampleResponse :: RawRoute where
  "exampleResponse =
     \<lparr>raw_legs = [\<lparr>raw_steps =
        [\<lparr>raw_polyline = Some (js ''??''), raw_distanceMeters = None,
          raw_duration = None, raw_staticDuration = Some (js ''1500s'')\<rparr>,
         \<lparr>raw_polyline = Some (js ''_ibE?''), raw_distanceMeters = None,
          raw_duration = None, raw_staticDuration = Some (js ''1500s'')\<rparr>]\<rparr>]\<rparr>"

lemma exampleResponse_parses: "routeParses exampleResponse exampleRoute"
  by (simp add: routeParses_def exampleResponse_def exampleRoute_def stepParses_def
      parseDurationSeconds_def js_def isDigitOrDot_def isDigit_def parseFloat_def
      digitsValue_def Let_def)

section \<open>Stopover search\<close>

subsection \<open>Interpolation by distance\<close>

text \<open>
  Reading \<^verbatim>\<open>.lat\<close> of a missing array element throws a \<^verbatim>\<open>TypeError\<close>; the
  \<^verbatim>\<open>try\<close>/\<^verbatim>\<open>catch\<close> of \<^verbatim>\<open>calculateIdealStopovers\<close> turns it into an empty result.
\<close>

datatype js_error = TypeError

function getPointAtDistance_loop ::
  "Coord list \<Rightarrow> real list \<Rightarrow> real \<Rightarrow> nat \<Rightarrow> js_error + Coord option" where
  "getPointAtDistance_loop polyline distances targetDistance i =
     (if i < length distances then
        (if targetDistance \<le> distances ! i then
           (let segmentStartDistance = distances ! (i - 1);
                segmentEndDistance = distances ! i;
                span = segmentEndDistance - segmentStartDistance;
                ratio = (if span > 0 then (targetDistance - segmentStartDistance) / span else 0)
            in if i < length polyline then
                 (let startPoint = polyline ! (i - 1);
                      endPoint = polyline ! i
                  in Inr (Some \<lparr>lat = lat startPoint + (lat endPoint - lat startPoint) * ratio,
                                 lng = lng startPoint + (lng endPoint - lng startPoint) * ratio\<rparr>))
               else Inl TypeError)
         else getPointAtDistance_loop polyline distances targetDistance (i + 1))
      else Inr (Some (polyline ! (length polyline - 1))))"
  by pat_completeness auto
termination
  by (relation "measure (\<lambda>(polyline, distances, targetDistance, i). length distances - i)") auto

declare getPointAtDistance_loop.simps [simp del]

definition getPointAtDistance :: "Coord list \<Rightarrow> real list \<Rightarrow> real \<Rightarrow> js_error + Coord option" where
  "getPointAtDistance polyline distances targetDistance =
     (if length polyline = 0 then Inr None
      else if targetDistance \<le> 0 \<or> length distances = 0 then Inr (Some (polyline ! 0))
      else getPointAtDistance_loop polyline distances targetDistance 1)"

subsection \<open>Candidate stopovers\<close>

text \<open>One iteration of the loop of \<^verbatim>\<open>generateStopoverCoordinates\<close>: the point for stop \<open>i\<close>.\<close>

definition stopoverPointAt ::
  "int \<Rightarrow> real \<Rightarrow> real \<Rightarrow> Coord list \<Rightarrow> real list \<Rightarrow> TimePoint list \<Rightarrow> bool \<Rightarrow> int
     \<Rightarrow> js_error + Coord option" where
  "stopoverPointAt segmentCount totalDurationSeconds totalDistanceMeters polyline distances
       timePoints hasTimeData i =
     (let segmentDurationSeconds = totalDurationSeconds / real_of_int segmentCount;
          targetTime = segmentDurationSeconds * real_of_int i;
          point = (if hasTimeData then getPointAtTime timePoints targetTime else None)
      in if point = None \<and> totalDistanceMeters > 0 then
           (let targetDistance = (totalDistanceMeters / real_of_int segmentCount) * real_of_int i
            in getPointAtDistance polyline distances targetDistance)
         else Inr point)"

text \<open>\<^verbatim>\<open>if (point) results.push(point)\<close>, for each \<open>i\<close> in turn; a throw ends the loop.\<close>

fun pushPoints :: "(int \<Rightarrow> js_error + Coord option) \<Rightarrow> int list \<Rightarrow> Coord list \<Rightarrow> js_error + Coord list" where
  "pushPoints pointAt [] results = Inr results"
| "pushPoints pointAt (i # rest) results =
     (case pointAt i of
        Inl e \<Rightarrow> Inl e
      | Inr None \<Rightarrow> pushPoints pointAt rest results
      | Inr (Some point) \<Rightarrow> pushPoints pointAt rest (results @ [point]))"

definition generateStopoverCoordinates ::
  "int \<Rightarrow> real \<Rightarrow> real \<Rightarrow> Coord list \<Rightarrow> real list \<Rightarrow> TimePoint list \<Rightarrow> bool
     \<Rightarrow> js_error + Coord list" where
  "generateStopoverCoordinates segmentCount totalDurationSeconds totalDistanceMeters polyline
       distances timePoints hasTimeData =
     (let stopCount = max (segmentCount - 1) 0
      in if stopCount = 0 \<or> totalDurationSeconds \<le> 0 then Inr []
         else pushPoints
                (stopoverPointAt segmentCount totalDurationSeconds totalDistanceMeters polyline
                   distances timePoints hasTimeData)
                [1 .. stopCount] [])"

subsection \<open>The oracles\<close>

text \<open>
  A \<^verbatim>\<open>computeRoutes\<close> request: origin, destination and the intermediate waypoints. The
  API key and the fixed fields of the request are part of the oracle.
\<close>

record RouteQuery =
  req_origin :: Location
  req_destination :: Location
  req_intermediates :: "Coord list"

text \<open>
  The leg-evaluation oracle answers the request of a refinement attempt with the parsed
  leg durations, or with \<^term>\<open>None\<close> when \<^verbatim>\<open>evaluateLegDurations\<close> returns \<^verbatim>\<open>null\<close> for the
  response: the call fails (transport error, status not ok), there is no route or no
  legs field, or a leg duration does not parse to a finite number (the
  \<^verbatim>\<open>Number.isFinite\<close> test of the function).
\<close>

type_synonym LegOracle = "nat \<Rightarrow> RouteQuery \<Rightarrow> nat list option"

definition evaluateLegDurations ::
  "(RouteQuery \<Rightarrow> nat list option) \<Rightarrow> Location \<Rightarrow> Location \<Rightarrow> Coord list \<Rightarrow> nat list option" where
  "evaluateLegDurations fetchLegs origin destination stopoverCoords =
     (let intermediates = stopoverCoords
      in case fetchLegs \<lparr>req_origin = origin, req_destination = destination,
                         req_intermediates = intermediates\<rparr> of
           None \<Rightarrow> None
         | Some durations \<Rightarrow> if length durations = 0 then None else Some durations)"

text \<open>
  A reverse-geocoding call either throws (\<^verbatim>\<open>fetch\<close> or \<^verbatim>\<open>json\<close> fails) or yields the
  \<^verbatim>\<open>formatted_address\<close> of the first result, if there is one.
\<close>

datatype GeocodeOutcome = GeocodeThrew | GeocodeData "string option"

type_synonym Geocoder = "nat \<Rightarrow> Coord \<Rightarrow> GeocodeOutcome"

subsection \<open>Reverse geocoding\<close>

text \<open>The decimal digits of a natural number, as \<^verbatim>\<open>toFixed\<close> and a template string print it.\<close>

definition digitChar :: "nat \<Rightarrow> char" where
  "digitChar d = ''0123456789'' ! d"

fun decimal :: "nat \<Rightarrow> string" where
  "decimal n = (if n < 10 then [digitChar n] else decimal (n div 10) @ [digitChar (n mod 10)])"

declare decimal.simps [simp del]

text \<open>
  \<^verbatim>\<open>Number.prototype.toFixed\<close> for a number below \<open>10\<^sup>2\<^sup>1\<close> in absolute value: the
  nearest multiple of \<open>10\<^sup>-\<^sup>f\<close>, the larger one on a tie, with \<open>f\<close> digits after the point.
\<close>

definition toFixed :: "real \<Rightarrow> nat \<Rightarrow> string" where
  "toFixed x f =
     (let s = (if x < 0 then ''-'' else '''');
          n = nat \<lfloor>\<bar>x\<bar> * 10 ^ f + 1 / 2\<rfloor>;
          m = decimal n;
          m' = (if length m \<le> f then replicate (f + 1 - length m) (CHR ''0'') @ m else m);
          k = length m'
      in s @ (if f \<noteq> 0 then take (k - f) m' @ ''.'' @ drop (k - f) m' else m'))"

text \<open>\<^verbatim>\<open>`Stop ${index + 1} (${point.lat.toFixed(4)}, ${point.lng.toFixed(4)})`\<close>\<close>

definition stopLabel :: "nat \<Rightarrow> Coord \<Rightarrow> string" where
  "stopLabel index point =
     ''Stop '' @ decimal (index + 1) @ '' ('' @ toFixed (lat point) 4 @ '', '' @
     toFixed (lng point) 4 @ '')''"

lemma stopLabel_example:
  "stopLabel 1 \<lparr>lat = 38.5, lng = - 120.2\<rparr> = ''Stop 2 (38.5000, -120.2000)''"
  by (simp add: stopLabel_def toFixed_def decimal.simps digitChar_def Let_def)

function geocodeLoop :: "Geocoder \<Rightarrow> Coord list \<Rightarrow> nat \<Rightarrow> Location list \<Rightarrow> Location list" where
  "geocodeLoop geocode stopoverCoords index results =
     (if index < length stopoverCoords then
        (let point = stopoverCoords ! index
         in case geocode index point of
              GeocodeData formatted_address \<Rightarrow>
                (let address' =
                       (case formatted_address of
                          Some a \<Rightarrow> if a \<noteq> [] then a else stopLabel index point
                        | None \<Rightarrow> stopLabel index point)
                 in geocodeLoop geocode stopoverCoords (index + 1)
                      (results @ [\<lparr>lat = lat point, lng = lng point, address = Some address'\<rparr>]))
            | GeocodeThrew \<Rightarrow>
                geocodeLoop geocode stopoverCoords (index + 1)
                  (results @ [\<lparr>lat = lat point, lng = lng point,
                               address = Some (stopLabel index point)\<rparr>]))
      else results)"
  by pat_completeness auto
termination
  by (relation "measure (\<lambda>(geocode, stopoverCoords, index, results). length stopoverCoords - index)")
     auto

declare geocodeLoop.simps [simp del]

definition geocodeStopoverCoordinates :: "Geocoder \<Rightarrow> Coord list \<Rightarrow> Location list" where
  "geocodeStopoverCoordinates geocode stopoverCoords = geocodeLoop geocode stopoverCoords 0 []"


subsection \<open>The refinement loop\<close>

text \<open>
  What one attempt logs when it queries the leg-evaluation oracle: the attempt number,
  \<^verbatim>\<open>evaluatedSegments\<close> and the request sent. The log is not part of the source; the
  claims about the requests are stated on it.
\<close>

record AttemptLog =
  log_attempt :: nat
  log_evaluatedSegments :: int
  log_query :: RouteQuery

text \<open>How a pass through the loop body ends: \<^verbatim>\<open>break\<close> (or a throw), or \<^verbatim>\<open>continue\<close>.\<close>

datatype AttemptResult = Break "js_error + Coord list" | Continue int "Coord list"

definition refineAttempt ::
  "LegOracle \<Rightarrow> Location \<Rightarrow> Location \<Rightarrow> (int \<Rightarrow> js_error + Coord list) \<Rightarrow> real \<Rightarrow> int
     \<Rightarrow> nat \<Rightarrow> int \<Rightarrow> AttemptResult \<times> AttemptLog list" where
  "refineAttempt fetchLegs origin destination generate totalDuration maxSegments
       attempt evaluatedSegments =
     (let stopCount = max (evaluatedSegments - 1) 0
      in if stopCount = 0 then (Break (Inr []), [])
         else
           (case generate evaluatedSegments of
              Inl e \<Rightarrow> (Break (Inl e), [])
            | Inr stopoverCoords \<Rightarrow>
                if int (length stopoverCoords) < stopCount then (Break (Inr []), [])
                else
                  (let entry = \<lparr>log_attempt = attempt, log_evaluatedSegments = evaluatedSegments,
                                 log_query = \<lparr>req_origin = origin, req_destination = destination,
                                              req_intermediates = stopoverCoords\<rparr>\<rparr>
                   in case evaluateLegDurations (fetchLegs attempt) origin destination
                             stopoverCoords of
                        None \<Rightarrow> (Break (Inr stopoverCoords), [entry])
                      | Some legDurations \<Rightarrow>
                          (let allWithinRange =
                                 list_all (\<lambda>duration. real duration \<ge> MIN_IDEAL_SEGMENT_SECONDS \<and>
                                                      real duration \<le> MAX_IDEAL_SEGMENT_SECONDS)
                                   legDurations;
                               hasOverMax =
                                 list_ex (\<lambda>duration. real duration > MAX_IDEAL_SEGMENT_SECONDS)
                                   legDurations;
                               hasUnderMin =
                                 list_ex (\<lambda>duration. real duration < MIN_IDEAL_SEGMENT_SECONDS)
                                   legDurations
                           in if allWithinRange then (Break (Inr stopoverCoords), [entry])
                              else if hasOverMax \<and> evaluatedSegments < maxSegments then
                                (Continue (evaluatedSegments + 1) stopoverCoords, [entry])
                              else if hasUnderMin \<and>
                                      evaluatedSegments >
                                        \<lceil>totalDuration / MAX_IDEAL_SEGMENT_SECONDS\<rceil> then
                                (Continue (max (evaluatedSegments - 1) 1) stopoverCoords, [entry])
                              else (Break (Inr stopoverCoords), [entry])))))"

text \<open>\<^verbatim>\<open>for (let attempt = 0; attempt < 4; attempt++)\<close>\<close>

function refineLoop ::
  "LegOracle \<Rightarrow> Location \<Rightarrow> Location \<Rightarrow> (int \<Rightarrow> js_error + Coord list) \<Rightarrow> real \<Rightarrow> int
     \<Rightarrow> nat \<Rightarrow> int \<Rightarrow> Coord list \<Rightarrow> (js_error + Coord list) \<times> AttemptLog list" where
  "refineLoop fetchLegs origin destination generate totalDuration maxSegments
       attempt evaluatedSegments stopoverCoords =
     (if attempt < 4 then
        (case refineAttempt fetchLegs origin destination generate totalDuration maxSegments
                attempt evaluatedSegments of
           (Break outcome, entries) \<Rightarrow> (outcome, entries)
         | (Continue evaluatedSegments' stopoverCoords', entries) \<Rightarrow>
             (let (outcome, later) =
                    refineLoop fetchLegs origin destination generate totalDuration maxSegments
                      (attempt + 1) evaluatedSegments' stopoverCoords'
              in (outcome, entries @ later)))
      else (Inr stopoverCoords, []))"
  by pat_completeness auto
termination
  by (relation "measure (\<lambda>(fetchLegs, origin, destination, generate, totalDuration, maxSegments,
        attempt, evaluatedSegments, stopoverCoords). 4 - attempt)") auto

declare refineLoop.simps [simp del]

subsection \<open>calculateIdealStopovers\<close>

text \<open>
  The \<^verbatim>\<open>maxStopovers\<close> argument is \<^term>\<open>None\<close> when it is \<^verbatim>\<open>undefined\<close> or not a finite
  number; the default then applies, as it does for a negative number.
\<close>

definition normalizedMaxStopovers :: "real option \<Rightarrow> int" where
  "normalizedMaxStopovers maxStopovers =
     (case maxStopovers of
        Some m \<Rightarrow> if m \<ge> 0 then \<lfloor>m\<rfloor> else MAX_AUTO_STOP_OVERS
      | None \<Rightarrow> MAX_AUTO_STOP_OVERS)"

text \<open>The cumulative distances after the leading 0, with the running \<^verbatim>\<open>totalDistance\<close>.\<close>

fun distancesFrom :: "real \<Rightarrow> Coord list \<Rightarrow> real list" where
  "distancesFrom totalDistance (previous # current # later) =
     (let distance = calculateDistance (lat previous) (lng previous) (lat current) (lng current);
          totalDistance' = totalDistance + distance
      in totalDistance' # distancesFrom totalDistance' (current # later))"
| "distancesFrom totalDistance later = []"

text \<open>
  The initial route request is answered with a parsed route, or with \<^term>\<open>None\<close> when the
  call fails, returns no route, or returns a route whose duration does not parse to a
  finite number; the function returns the empty list in each of these cases (for a
  duration that is not finite \<^verbatim>\<open>getIdealSegmentCount\<close> is 1 by its \<^verbatim>\<open>Number.isFinite\<close>
  test, and \<^verbatim>\<open>numberOfStopovers\<close> is 0). The second component of the result is the log of
  the leg-evaluation requests.
\<close>

definition calculateIdealStopovers_run ::
  "(RouteQuery \<Rightarrow> Route option) \<Rightarrow> LegOracle \<Rightarrow> Geocoder \<Rightarrow> Location \<Rightarrow> Location
     \<Rightarrow> real option \<Rightarrow> Location list \<times> AttemptLog list" where
  "calculateIdealStopovers_run fetchRoute fetchLegs geocode origin destination maxStopovers =
     (case fetchRoute \<lparr>req_origin = origin, req_destination = destination,
                        req_intermediates = []\<rparr> of
        None \<Rightarrow> ([], [])
      | Some route \<Rightarrow>
          (let totalDuration = real (route_duration route);
               idealSegments = getIdealSegmentCount totalDuration;
               potentialStopovers = max (idealSegments - 1) 0;
               numberOfStopovers = min potentialStopovers (normalizedMaxStopovers maxStopovers)
           in if numberOfStopovers \<le> 0 \<or> totalDuration \<le> 0 then ([], [])
              else
                (let polyline = decodeOptional (route_polyline route);
                     distances = 0 # distancesFrom 0 polyline;
                     timePoints = buildTimePoints route;
                     hasTimeData = (length timePoints > 1 \<and>
                                    time (timePoints ! (length timePoints - 1)) > 0);
                     totalDistanceMeters = distances ! (length distances - 1);
                     maxSegments = min (normalizedMaxStopovers maxStopovers + 1)
                                       (MAX_AUTO_STOP_OVERS + 1);
                     evaluatedSegments = min (max idealSegments 1) maxSegments;
                     (outcome, entries) =
                        refineLoop fetchLegs origin destination
                          (\<lambda>segmentCount. generateStopoverCoordinates segmentCount totalDuration
                              totalDistanceMeters polyline distances timePoints hasTimeData)
                          totalDuration maxSegments 0 evaluatedSegments []
                 in case outcome of
                      Inl e \<Rightarrow> ([], entries)
                    | Inr stopoverCoords \<Rightarrow>
                        if length stopoverCoords = 0 then ([], entries)
                        else (geocodeStopoverCoordinates geocode stopoverCoords, entries))))"

definition calculateIdealStopovers ::
  "(RouteQuery \<Rightarrow> Route option) \<Rightarrow> LegOracle \<Rightarrow> Geocoder \<Rightarrow> Location \<Rightarrow> Location
     \<Rightarrow> real option \<Rightarrow> Location list" where
  "calculateIdealStopovers fetchRoute fetchLegs geocode origin destination maxStopovers =
     fst (calculateIdealStopovers_run fetchRoute fetchLegs geocode origin destination maxStopovers)"

definition legRequests ::
  "(RouteQuery \<Rightarrow> Route option) \<Rightarrow> LegOracle \<Rightarrow> Geocoder \<Rightarrow> Location \<Rightarrow> Location
     \<Rightarrow> real option \<Rightarrow> AttemptLog list" where
  "legRequests fetchRoute fetchLegs geocode origin destination maxStopovers =
     snd (calculateIdealStopovers_run fetchRoute fetchLegs geocode origin destination maxStopovers)"

subsection \<open>The waypoint ceiling\<close>

lemma pushPoints_length:
  "pushPoints pointAt is results = Inr r \<Longrightarrow> length r \<le> length results + length is"
proof (induction "is" arbitrary: results)
  case Nil
  then show ?case by simp
next
  case (Cons i rest)
  then show ?case
    by (fastforce split: sum.splits option.splits)
qed

lemma generateStopoverCoordinates_length:
  assumes "generateStopoverCoordinates n dur dst pl ds tps h = Inr cs"
  shows "int (length cs) \<le> max (n - 1) 0"
proof (cases "max (n - 1) 0 = 0 \<or> dur \<le> 0")
  case True
  with assms show ?thesis by (auto simp: generateStopoverCoordinates_def Let_def)
next
  case False
  with assms have "pushPoints (stopoverPointAt n dur dst pl ds tps h) [1 .. max (n - 1) 0] [] = Inr cs"
    by (simp add: generateStopoverCoordinates_def Let_def)
  from pushPoints_length [OF this] show ?thesis by simp
qed

lemma refineAttempt_entries:
  assumes "refineAttempt fetchLegs origin destination generate totalDuration maxSegments attempt es = (r, entries)"
    and "\<And>n cs. generate n = Inr cs \<Longrightarrow> int (length cs) \<le> max (n - 1) 0"
    and "a \<in> set entries"
  shows "log_attempt a = attempt \<and> log_evaluatedSegments a = es \<and>
         int (length (req_intermediates (log_query a))) \<le> es - 1 \<and>
         req_origin (log_query a) = origin \<and> req_destination (log_query a) = destination"
proof (cases "generate es")
  case (Inl e)
  with assms show ?thesis by (auto simp: refineAttempt_def Let_def split: if_splits)
next
  case (Inr cs)
  have len: "int (length cs) \<le> max (es - 1) 0" using assms(2) Inr by simp
  from assms(1,3) Inr have "max (es - 1) 0 \<noteq> 0"
    by (auto simp: refineAttempt_def Let_def split: if_splits)
  with len have len': "int (length cs) \<le> es - 1" by simp
  from assms(1,3) Inr have "a = \<lparr>log_attempt = attempt, log_evaluatedSegments = es,
      log_query = \<lparr>req_origin = origin, req_destination = destination, req_intermediates = cs\<rparr>\<rparr>"
    by (auto simp: refineAttempt_def Let_def split: if_splits option.splits)
  with len' show ?thesis by simp
qed

lemma refineAttempt_continue:
  assumes "refineAttempt fetchLegs origin destination generate totalDuration maxSegments attempt es
             = (Continue es' cs, entries)"
    and "1 \<le> es" "es \<le> maxSegments"
  shows "1 \<le> es' \<and> es' \<le> maxSegments"
  using assms
  by (auto simp: refineAttempt_def Let_def split: if_splits option.splits sum.splits)

lemma refineLoop_entries:
  assumes "\<And>n cs. generate n = Inr cs \<Longrightarrow> int (length cs) \<le> max (n - 1) 0"
    and "1 \<le> es" "es \<le> maxSegments"
    and "a \<in> set (snd (refineLoop fetchLegs origin destination generate totalDuration maxSegments attempt es coords))"
  shows "1 \<le> log_evaluatedSegments a \<and> log_evaluatedSegments a \<le> maxSegments \<and>
         int (length (req_intermediates (log_query a))) \<le> log_evaluatedSegments a - 1"
  using assms
proof (induction fetchLegs origin destination generate totalDuration maxSegments attempt es coords
       rule: refineLoop.induct)
  case (1 fetchLegs origin destination generate totalDuration maxSegments attempt es coords)
  note gen = 1(2) and lo = 1(3) and hi = 1(4) and mem = 1(5)
  show ?case
  proof (cases "attempt < 4")
    case False
    with mem show ?thesis by (subst (asm) refineLoop.simps) simp
  next
    case True
    obtain r entries where ra: "refineAttempt fetchLegs origin destination generate totalDuration
        maxSegments attempt es = (r, entries)"
      by (cases "refineAttempt fetchLegs origin destination generate totalDuration
        maxSegments attempt es")
    have here: "1 \<le> log_evaluatedSegments b \<and> log_evaluatedSegments b \<le> maxSegments \<and>
         int (length (req_intermediates (log_query b))) \<le> log_evaluatedSegments b - 1"
      if "b \<in> set entries" for b
      using refineAttempt_entries [OF ra gen that] lo hi by simp
    show ?thesis
    proof (cases r)
      case (Break outcome)
      with mem True ra have "a \<in> set entries" by (subst (asm) refineLoop.simps) simp
      then show ?thesis by (rule here)
    next
      case (Continue es' cs')
      obtain outcome later where rl: "refineLoop fetchLegs origin destination generate totalDuration
          maxSegments (attempt + 1) es' cs' = (outcome, later)"
        by (cases "refineLoop fetchLegs origin destination generate totalDuration
          maxSegments (attempt + 1) es' cs'")
      from mem True ra Continue rl have "a \<in> set entries \<or> a \<in> set later"
        by (subst (asm) refineLoop.simps) auto
      then show ?thesis
      proof
        assume "a \<in> set entries" then show ?thesis by (rule here)
      next
        assume later: "a \<in> set later"
        have bounds: "1 \<le> es' \<and> es' \<le> maxSegments"
          using refineAttempt_continue [OF ra [unfolded Continue] lo hi] .
        show ?thesis
          using 1(1) [OF True ra [symmetric] Continue gen] bounds later rl by simp
      qed
    qed
  qed
qed


lemma normalizedMaxStopovers_nonneg: "0 \<le> normalizedMaxStopovers m"
  by (auto simp: normalizedMaxStopovers_def MAX_AUTO_STOP_OVERS_def split: option.splits)

text \<open>
  C2: whatever the origin, the destination, the \<^verbatim>\<open>maxStopovers\<close> argument and the
  answers of the oracles, every leg-evaluation request is sent with \<^verbatim>\<open>evaluatedSegments\<close>
  between 1 and \<open>min (maxStopovers + 1) 24\<close> (\<^verbatim>\<open>maxStopovers\<close> as normalised by the
  function: rounded down, 23 by default) and carries at most 23 intermediate waypoints.
  The initial route request carries none.
\<close>

theorem calculateIdealStopovers_waypoint_ceiling:
  "\<forall>a \<in> set (legRequests fetchRoute fetchLegs geocode origin destination maxStopovers).
     1 \<le> log_evaluatedSegments a \<and>
     log_evaluatedSegments a \<le> min (normalizedMaxStopovers maxStopovers + 1) 24 \<and>
     length (req_intermediates (log_query a)) \<le> 23"
proof
  fix a
  assume mem: "a \<in> set (legRequests fetchRoute fetchLegs geocode origin destination maxStopovers)"
  define q0 where "q0 = \<lparr>req_origin = origin, req_destination = destination, req_intermediates = []\<rparr>"
  show "1 \<le> log_evaluatedSegments a \<and>
     log_evaluatedSegments a \<le> min (normalizedMaxStopovers maxStopovers + 1) 24 \<and>
     length (req_intermediates (log_query a)) \<le> 23"
  proof (cases "fetchRoute q0")
    case None
    with mem show ?thesis
      by (simp add: legRequests_def calculateIdealStopovers_run_def q0_def)
  next
    case (Some route)
    define totalDuration where "totalDuration = real (route_duration route)"
    define idealSegments where "idealSegments = getIdealSegmentCount totalDuration"
    define maxSegments where "maxSegments = min (normalizedMaxStopovers maxStopovers + 1) (MAX_AUTO_STOP_OVERS + 1)"
    define evaluatedSegments where "evaluatedSegments = min (max idealSegments 1) maxSegments"
    define pl where "pl = decodeOptional (route_polyline route)"
    define ds where "ds = 0 # distancesFrom 0 pl"
    define tps where "tps = buildTimePoints route"
    define generate where "generate = (\<lambda>segmentCount. generateStopoverCoordinates segmentCount totalDuration
        (ds ! (length ds - 1)) pl ds tps (length tps > 1 \<and> time (tps ! (length tps - 1)) > 0))"
    have gen: "\<And>n cs. generate n = Inr cs \<Longrightarrow> int (length cs) \<le> max (n - 1) 0"
      unfolding generate_def by (rule generateStopoverCoordinates_length)
    have ms: "1 \<le> maxSegments"
      using normalizedMaxStopovers_nonneg [of maxStopovers]
      by (simp add: maxSegments_def MAX_AUTO_STOP_OVERS_def)
    have lo: "1 \<le> evaluatedSegments" using ms by (simp add: evaluatedSegments_def)
    have hi: "evaluatedSegments \<le> maxSegments" by (simp add: evaluatedSegments_def)
    have "a \<in> set (snd (refineLoop fetchLegs origin destination generate totalDuration maxSegments 0
            evaluatedSegments []))"
      using mem Some
      by (auto simp: legRequests_def calculateIdealStopovers_run_def q0_def [symmetric] Let_def
          totalDuration_def idealSegments_def maxSegments_def evaluatedSegments_def pl_def ds_def
          tps_def generate_def split: if_splits prod.splits sum.splits)
    from refineLoop_entries [OF gen lo hi this]
    have "1 \<le> log_evaluatedSegments a" "log_evaluatedSegments a \<le> maxSegments"
      "int (length (req_intermediates (log_query a))) \<le> log_evaluatedSegments a - 1"
      by simp_all
    moreover have "maxSegments \<le> 24" "maxSegments = min (normalizedMaxStopovers maxStopovers + 1) 24"
      by (simp_all add: maxSegments_def MAX_AUTO_STOP_OVERS_def)
    ultimately show ?thesis by auto
  qed
qed

lemma exampleRoute_fields:
  "route_duration exampleRoute = 3000" "route_polyline exampleRoute = None"
  by (simp_all add: exampleRoute_def)

definition exampleOrigin :: Location where
  "exampleOrigin = \<lparr>lat = 0, lng = 0, address = None\<rparr>"

definition exampleDestination :: Location where
  "exampleDestination = \<lparr>lat = 1, lng = 0, address = None\<rparr>"

lemma exampleRoute_candidates:
  "generateStopoverCoordinates 2 3000 0 [] [0] (buildTimePoints exampleRoute) True =
     Inr [\<lparr>lat = 1 / 2, lng = 0\<rparr>]"
  by (simp add: generateStopoverCoordinates_def buildTimePoints_exampleRoute stopoverPointAt_def
      getPointAtTime_def getPointAtTime_loop.simps Let_def upto.simps)

lemma exampleRoute_run:
  "calculateIdealStopovers_run (\<lambda>q. Some exampleRoute) (\<lambda>k q. Some [1500, 1500])
       (\<lambda>i p. GeocodeThrew) exampleOrigin exampleDestination None =
     ([\<lparr>lat = 1 / 2, lng = 0, address = Some (stopLabel 0 \<lparr>lat = 1 / 2, lng = 0\<rparr>)\<rparr>],
      [\<lparr>log_attempt = 0, log_evaluatedSegments = 2,
        log_query = \<lparr>req_origin = exampleOrigin, req_destination = exampleDestination,
                     req_intermediates = [\<lparr>lat = 1 / 2, lng = 0\<rparr>]\<rparr>\<rparr>])"
  by (simp add: calculateIdealStopovers_run_def exampleRoute_fields getIdealSegmentCount_def
      IDEAL_POMODORO_SECONDS_def normalizedMaxStopovers_def MAX_AUTO_STOP_OVERS_def
      decodeOptional_def buildTimePoints_exampleRoute Let_def round_def
      refineLoop.simps refineAttempt_def exampleRoute_candidates [unfolded buildTimePoints_exampleRoute]
      evaluateLegDurations_def MIN_IDEAL_SEGMENT_SECONDS_def MAX_IDEAL_SEGMENT_SECONDS_def
      geocodeStopoverCoordinates_def geocodeLoop.simps)

theorem calculateIdealStopovers_waypoint_ceiling_witness:
  "legRequests (\<lambda>q. Some exampleRoute) (\<lambda>k q. Some [1500, 1500]) (\<lambda>i p. GeocodeThrew)
       exampleOrigin exampleDestination None =
     [\<lparr>log_attempt = 0, log_evaluatedSegments = 2,
       log_query = \<lparr>req_origin = exampleOrigin, req_destination = exampleDestination,
                    req_intermediates = [\<lparr>lat = 1 / 2, lng = 0\<rparr>]\<rparr>\<rparr>] \<and>
   (1::int) \<le> 2 \<and> (2::int) \<le> min (normalizedMaxStopovers None + 1) 24 \<and>
   length [\<lparr>lat = 1 / 2, lng = (0::real)\<rparr>] \<le> 23"
  using calculateIdealStopovers_waypoint_ceiling [of "\<lambda>q. Some exampleRoute"
      "\<lambda>k q. Some [1500, 1500]" "\<lambda>i p. GeocodeThrew" exampleOrigin exampleDestination None]
  by (simp add: legRequests_def exampleRoute_run)

subsection \<open>Short routes\<close>

text \<open>
  C4: every total duration of at most 1500 seconds, zero and negative ones included,
  has ideal segment count 1, and \<^const>\<open>calculateIdealStopovers\<close> returns the empty list for
  a route of such a duration, whatever the \<^verbatim>\<open>maxStopovers\<close> argument.
\<close>

theorem short_route_no_stopovers:
  "(d \<le> 1500 \<longrightarrow> getIdealSegmentCount d = 1) \<and>
   (fetchRoute \<lparr>req_origin = origin, req_destination = destination, req_intermediates = []\<rparr>
      = Some route \<and> route_duration route \<le> 1500 \<longrightarrow>
    calculateIdealStopovers fetchRoute fetchLegs geocode origin destination maxStopovers = [])"
proof (intro conjI impI)
  assume "d \<le> 1500"
  then show "getIdealSegmentCount d = 1" by (rule getIdealSegmentCount_short)
next
  assume a: "fetchRoute \<lparr>req_origin = origin, req_destination = destination, req_intermediates = []\<rparr>
      = Some route \<and> route_duration route \<le> 1500"
  then have "getIdealSegmentCount (real (route_duration route)) = 1"
    by (intro getIdealSegmentCount_short) simp
  moreover have "min 0 (normalizedMaxStopovers maxStopovers) \<le> 0" by simp
  ultimately show "calculateIdealStopovers fetchRoute fetchLegs geocode origin destination maxStopovers = []"
    using a by (simp add: calculateIdealStopovers_def calculateIdealStopovers_run_def Let_def)
qed

theorem short_route_no_stopovers_witness:
  "getIdealSegmentCount (- 5) = 1 \<and>
   calculateIdealStopovers (\<lambda>q. Some (exampleRoute\<lparr>route_duration := 1000\<rparr>))
     (\<lambda>k q. Some [500, 500]) (\<lambda>i p. GeocodeThrew) exampleOrigin exampleDestination (Some 5) = []"
  using short_route_no_stopovers [of "- 5" "\<lambda>q. Some (exampleRoute\<lparr>route_duration := 1000\<rparr>)"
      exampleOrigin exampleDestination "exampleRoute\<lparr>route_duration := 1000\<rparr>"
      "\<lambda>k q. Some [500, 500]" "\<lambda>i p. GeocodeThrew" "Some 5"]
  by simp

subsection \<open>Reverse geocoding keeps the coordinates\<close>

text \<open>
  The address of a stopover in the claim's words: the formatted address when the call
  succeeds with one, the synthesized label otherwise.
\<close>

definition addressFor :: "GeocodeOutcome \<Rightarrow> nat \<Rightarrow> Coord \<Rightarrow> string" where
  "addressFor outcome index point =
     (case outcome of
        GeocodeData (Some a) \<Rightarrow> if a = [] then stopLabel index point else a
      | GeocodeData None \<Rightarrow> stopLabel index point
      | GeocodeThrew \<Rightarrow> stopLabel index point)"

definition geocoded :: "Geocoder \<Rightarrow> Coord list \<Rightarrow> nat \<Rightarrow> Location" where
  "geocoded geocode stopoverCoords j =
     \<lparr>lat = lat (stopoverCoords ! j), lng = lng (stopoverCoords ! j),
      address = Some (addressFor (geocode j (stopoverCoords ! j)) j (stopoverCoords ! j))\<rparr>"

lemma geocodeLoop_map:
  "geocodeLoop geocode stopoverCoords index results =
     results @ map (geocoded geocode stopoverCoords) [index ..< length stopoverCoords]"
proof (induction geocode stopoverCoords index results rule: geocodeLoop.induct)
  case (1 geocode stopoverCoords index results)
  show ?case
  proof (cases "index < length stopoverCoords")
    case False
    then show ?thesis by (subst geocodeLoop.simps) simp
  next
    case True
    then have upt: "[index ..< length stopoverCoords] = index # [index + 1 ..< length stopoverCoords]"
      by (simp add: upt_conv_Cons)
    show ?thesis
    proof (cases "geocode index (stopoverCoords ! index)")
      case GeocodeThrew
      then show ?thesis
        using 1(1) [OF True refl GeocodeThrew] True
        by (subst geocodeLoop.simps) (simp add: upt geocoded_def addressFor_def Let_def)
    next
      case (GeocodeData formatted_address)
      then show ?thesis
        using 1(2) [OF True refl GeocodeData refl] True
        by (subst geocodeLoop.simps)
           (auto simp: upt geocoded_def addressFor_def Let_def split: option.splits)
    qed
  qed
qed

text \<open>
  C10: whatever the outcomes of the geocoding calls, \<^const>\<open>geocodeStopoverCoordinates\<close>
  returns a list of the length of its input whose element at each index has exactly the
  lat and lng of the input coordinate at that index; only the address is added: the
  formatted address on success, the label \<^verbatim>\<open>Stop N (lat, lng)\<close> otherwise.
\<close>

theorem geocodeStopoverCoordinates_frame:
  "length (geocodeStopoverCoordinates geocode stopoverCoords) = length stopoverCoords \<and>
   map coordOf (geocodeStopoverCoordinates geocode stopoverCoords) = stopoverCoords \<and>
   map address (geocodeStopoverCoordinates geocode stopoverCoords) =
     map (\<lambda>i. Some (addressFor (geocode i (stopoverCoords ! i)) i (stopoverCoords ! i)))
       [0 ..< length stopoverCoords]"
proof -
  have "map coordOf (map (geocoded geocode stopoverCoords) [0 ..< length stopoverCoords])
          = map (\<lambda>i. stopoverCoords ! i) [0 ..< length stopoverCoords]"
    by (simp add: geocoded_def coordOf_def)
  then have "map coordOf (map (geocoded geocode stopoverCoords) [0 ..< length stopoverCoords])
          = stopoverCoords"
    by (simp only: map_nth)
  then show ?thesis
    by (simp add: geocodeStopoverCoordinates_def geocodeLoop_map geocoded_def comp_def)
qed

subsection \<open>Determinism\<close>

text \<open>
  Two leg-evaluation oracles agree on a log when they answer each logged request alike.
\<close>

definition agreeOn :: "LegOracle \<Rightarrow> LegOracle \<Rightarrow> AttemptLog list \<Rightarrow> bool" where
  "agreeOn fetchLegs fetchLegs' entries \<longleftrightarrow>
     list_all (\<lambda>a. fetchLegs (log_attempt a) (log_query a) = fetchLegs' (log_attempt a) (log_query a))
       entries"

lemma agreeOn_append [simp]:
  "agreeOn f f' (xs @ ys) \<longleftrightarrow> agreeOn f f' xs \<and> agreeOn f f' ys"
  by (simp add: agreeOn_def)

lemma refineAttempt_agree:
  assumes "agreeOn f f' (snd (refineAttempt f origin destination generate totalDuration maxSegments attempt es))"
  shows "refineAttempt f' origin destination generate totalDuration maxSegments attempt es =
         refineAttempt f origin destination generate totalDuration maxSegments attempt es"
proof (cases "generate es")
  case (Inl e)
  then show ?thesis by (simp add: refineAttempt_def Let_def)
next
  case (Inr cs)
  show ?thesis
  proof (cases "max (es - 1) 0 = 0 \<or> int (length cs) < max (es - 1) 0")
    case True
    with Inr show ?thesis by (auto simp: refineAttempt_def Let_def)
  next
    case False
    define q where "q = \<lparr>req_origin = origin, req_destination = destination, req_intermediates = cs\<rparr>"
    have "snd (refineAttempt f origin destination generate totalDuration maxSegments attempt es) =
            [\<lparr>log_attempt = attempt, log_evaluatedSegments = es, log_query = q\<rparr>]"
      using False Inr by (auto simp: refineAttempt_def Let_def q_def split: option.splits)
    with assms have "f attempt q = f' attempt q" by (simp add: agreeOn_def)
    then have "evaluateLegDurations (f' attempt) origin destination cs =
               evaluateLegDurations (f attempt) origin destination cs"
      by (simp add: evaluateLegDurations_def q_def)
    with False Inr show ?thesis by (simp add: refineAttempt_def Let_def)
  qed
qed

lemma refineLoop_agree:
  assumes "agreeOn f f' (snd (refineLoop f origin destination generate totalDuration maxSegments attempt es coords))"
  shows "refineLoop f' origin destination generate totalDuration maxSegments attempt es coords =
         refineLoop f origin destination generate totalDuration maxSegments attempt es coords"
  using assms
proof (induction f origin destination generate totalDuration maxSegments attempt es coords
       rule: refineLoop.induct)
  case (1 f origin destination generate totalDuration maxSegments attempt es coords)
  note agree = 1(2)
  show ?case
  proof (cases "attempt < 4")
    case False
    then show ?thesis by (simp add: refineLoop.simps)
  next
    case True
    obtain r entries where ra: "refineAttempt f origin destination generate totalDuration
        maxSegments attempt es = (r, entries)"
      by (cases "refineAttempt f origin destination generate totalDuration maxSegments attempt es")
    show ?thesis
    proof (cases r)
      case (Break outcome)
      with agree True ra have "agreeOn f f' entries"
        by (subst (asm) refineLoop.simps) simp
      then have "refineAttempt f' origin destination generate totalDuration maxSegments attempt es
                   = (r, entries)"
        using refineAttempt_agree [of f f' origin destination generate totalDuration maxSegments attempt es] ra
        by simp
      with ra Break True show ?thesis by (simp add: refineLoop.simps [of _ _ _ _ _ _ attempt])
    next
      case (Continue es' cs')
      obtain outcome later where rl: "refineLoop f origin destination generate totalDuration
          maxSegments (attempt + 1) es' cs' = (outcome, later)"
        by (cases "refineLoop f origin destination generate totalDuration
          maxSegments (attempt + 1) es' cs'")
      from agree True ra Continue rl have both: "agreeOn f f' entries \<and> agreeOn f f' later"
        by (subst (asm) refineLoop.simps) simp
      then have ra': "refineAttempt f' origin destination generate totalDuration maxSegments attempt es
                   = (r, entries)"
        using refineAttempt_agree [of f f' origin destination generate totalDuration maxSegments attempt es] ra
        by simp
      have "refineLoop f' origin destination generate totalDuration maxSegments (attempt + 1) es' cs'
              = (outcome, later)"
        using 1(1) [OF True ra [symmetric] Continue] both rl by simp
      with ra ra' rl Continue True show ?thesis
        by (simp add: refineLoop.simps [of _ _ _ _ _ _ attempt])
    qed
  qed
qed

lemma map_coordOf_geocode:
  "map coordOf (geocodeStopoverCoordinates geocode stopoverCoords) = stopoverCoords"
proof -
  have "map coordOf (map (geocoded geocode stopoverCoords) [0 ..< length stopoverCoords])
          = map (\<lambda>i. stopoverCoords ! i) [0 ..< length stopoverCoords]"
    by (simp add: geocoded_def coordOf_def)
  then show ?thesis
    by (simp add: geocodeStopoverCoordinates_def geocodeLoop_map map_nth)
qed

text \<open>
  C9: two invocations with the same origin, destination and \<^verbatim>\<open>maxStopovers\<close>, whose
  route oracles answer the initial request alike and whose leg-evaluation oracles answer
  alike every request the first invocation sends, return the same stopover coordinates,
  whatever the geocoders answer; with the same geocoder they return the same list.
\<close>

theorem calculateIdealStopovers_deterministic:
  assumes "fetchRoute \<lparr>req_origin = origin, req_destination = destination, req_intermediates = []\<rparr> =
           fetchRoute' \<lparr>req_origin = origin, req_destination = destination, req_intermediates = []\<rparr>"
    and "agreeOn fetchLegs fetchLegs'
           (legRequests fetchRoute fetchLegs geocode origin destination maxStopovers)"
  shows "map coordOf (calculateIdealStopovers fetchRoute fetchLegs geocode origin destination maxStopovers) =
         map coordOf (calculateIdealStopovers fetchRoute' fetchLegs' geocode' origin destination maxStopovers) \<and>
         calculateIdealStopovers fetchRoute fetchLegs geocode origin destination maxStopovers =
         calculateIdealStopovers fetchRoute' fetchLegs' geocode origin destination maxStopovers"
proof -
  define q0 where "q0 = \<lparr>req_origin = origin, req_destination = destination, req_intermediates = []\<rparr>"
  show ?thesis
  proof (cases "fetchRoute q0")
    case None
    with assms(1) show ?thesis
      by (simp add: calculateIdealStopovers_def calculateIdealStopovers_run_def q0_def)
  next
    case (Some route)
    define totalDuration where "totalDuration = real (route_duration route)"
    define maxSegments where "maxSegments = min (normalizedMaxStopovers maxStopovers + 1) (MAX_AUTO_STOP_OVERS + 1)"
    define evaluatedSegments where "evaluatedSegments = min (max (getIdealSegmentCount totalDuration) 1) maxSegments"
    define pl where "pl = decodeOptional (route_polyline route)"
    define ds where "ds = 0 # distancesFrom 0 pl"
    define tps where "tps = buildTimePoints route"
    define generate where "generate = (\<lambda>segmentCount. generateStopoverCoordinates segmentCount totalDuration
        (ds ! (length ds - 1)) pl ds tps (length tps > 1 \<and> time (tps ! (length tps - 1)) > 0))"
    define early where "early \<longleftrightarrow>
        min (max (getIdealSegmentCount totalDuration - 1) 0) (normalizedMaxStopovers maxStopovers) \<le> 0
        \<or> totalDuration \<le> 0"
    define finish where "finish = (\<lambda>g (p :: (js_error + Coord list) \<times> AttemptLog list).
        case p of (outcome, entries) \<Rightarrow>
          (case outcome of Inl e \<Rightarrow> ([], entries)
           | Inr stopoverCoords \<Rightarrow> if length stopoverCoords = 0 then ([], entries)
                                   else (geocodeStopoverCoordinates g stopoverCoords, entries)))"
    have run: "calculateIdealStopovers_run fr fl g origin destination maxStopovers =
        (if early then ([], [])
         else finish g (refineLoop fl origin destination generate totalDuration maxSegments 0
                  evaluatedSegments []))"
      if "fr q0 = Some route" for fr fl g
      using that
      by (simp add: calculateIdealStopovers_run_def q0_def [symmetric] Let_def
          totalDuration_def maxSegments_def evaluatedSegments_def pl_def ds_def
          tps_def generate_def early_def finish_def)
    have r2: "fetchRoute' q0 = Some route" using assms(1) Some by (simp add: q0_def)
    show ?thesis
    proof (cases early)
      case True
      then show ?thesis by (simp add: calculateIdealStopovers_def run [of fetchRoute, OF Some] run [of "fetchRoute'", OF r2])
    next
      case False
      have "agreeOn fetchLegs fetchLegs'
              (snd (refineLoop fetchLegs origin destination generate totalDuration maxSegments 0
                  evaluatedSegments []))"
        using assms(2) False
        by (auto simp: legRequests_def run [of fetchRoute, OF Some] finish_def split: sum.splits prod.splits if_splits)
      from refineLoop_agree [OF this]
      have same: "refineLoop fetchLegs' origin destination generate totalDuration maxSegments 0
                  evaluatedSegments [] =
            refineLoop fetchLegs origin destination generate totalDuration maxSegments 0
                  evaluatedSegments []" .
      show ?thesis
        using False
        by (auto simp: calculateIdealStopovers_def run [of fetchRoute, OF Some] run [of "fetchRoute'", OF r2] same finish_def
            map_coordOf_geocode split: sum.splits prod.splits)
    qed
  qed
qed


theorem calculateIdealStopovers_deterministic_witness:
  "map coordOf (calculateIdealStopovers (\<lambda>q. Some exampleRoute) (\<lambda>k q. Some [1500, 1500])
       (\<lambda>i p. GeocodeThrew) exampleOrigin exampleDestination None) =
   map coordOf (calculateIdealStopovers
       (\<lambda>q. if req_intermediates q = [] then Some exampleRoute else None)
       (\<lambda>k q. if k = 0 then Some [1500, 1500] else None)
       (\<lambda>i p. GeocodeData (Some ''Rest area'')) exampleOrigin exampleDestination None) \<and>
   calculateIdealStopovers (\<lambda>q. Some exampleRoute) (\<lambda>k q. Some [1500, 1500])
       (\<lambda>i p. GeocodeThrew) exampleOrigin exampleDestination None =
   calculateIdealStopovers
       (\<lambda>q. if req_intermediates q = [] then Some exampleRoute else None)
       (\<lambda>k q. if k = 0 then Some [1500, 1500] else None)
       (\<lambda>i p. GeocodeThrew) exampleOrigin exampleDestination None \<and>
   map coordOf (calculateIdealStopovers (\<lambda>q. Some exampleRoute) (\<lambda>k q. Some [1500, 1500])
       (\<lambda>i p. GeocodeThrew) exampleOrigin exampleDestination None) = [\<lparr>lat = 1 / 2, lng = 0\<rparr>]"
  (is "?A \<and> ?B \<and> ?C")
proof -
  have p2: "agreeOn (\<lambda>k q. Some [1500, 1500]) (\<lambda>k q. if k = 0 then Some [1500, 1500] else None)
              (legRequests (\<lambda>q. Some exampleRoute) (\<lambda>k q. Some [1500, 1500]) (\<lambda>i p. GeocodeThrew)
                 exampleOrigin exampleDestination None)"
    by (simp add: agreeOn_def legRequests_def exampleRoute_run)
  have ab: "?A \<and> ?B"
    by (rule calculateIdealStopovers_deterministic [of "\<lambda>q. Some exampleRoute" exampleOrigin
          exampleDestination "\<lambda>q. if req_intermediates q = [] then Some exampleRoute else None"
          "\<lambda>k q. Some [1500, 1500]" "\<lambda>k q. if k = 0 then Some [1500, 1500] else None"
          "\<lambda>i p. GeocodeThrew" None "\<lambda>i p. GeocodeData (Some ''Rest area'')"])
       (simp, rule p2)
  have c: "?C"
    by (simp add: calculateIdealStopovers_def exampleRoute_run coordOf_def)
  from ab c show ?thesis by blast
qed

section \<open>Truncated polylines\<close>

text \<open>
  A code unit continues its group when \<^verbatim>\<open>b >= 0x20\<close> holds for it; any other unit ends a
  group.
\<close>

definition continuation :: "nat \<Rightarrow> bool" where
  "continuation c \<longleftrightarrow> continues (Some (int c - 63))"

text \<open>
  A truncated string, in the specification's words: its final group is cut before the
  unit that ends it, or its groups are complete but the last latitude has no longitude.
\<close>

definition terminators :: "js_string \<Rightarrow> nat" where
  "terminators s = length (filter (\<lambda>c. \<not> continuation c) s)"

definition truncated :: "js_string \<Rightarrow> bool" where
  "truncated s \<longleftrightarrow> s \<noteq> [] \<and> (continuation (last s) \<or> odd (terminators s))"

text \<open>Past the end the decoder reads what the character \<^verbatim>\<open>?\<close> (code 63) would give.\<close>

lemma readGroup_pad: "readGroup (s @ [63]) i sh r = readGroup s i sh r"
proof (induction s i sh r rule: readGroup.induct)
  case (1 s i sh r)
  have lhs: "readGroup (s @ [63]) i sh r =
     (let b = map_option (\<lambda>c. c - 63) (charCodeAt (s @ [63]) i);
          result' = r OR push_bit (sh mod 32) (chunk_bits b)
      in if continues b then readGroup (s @ [63]) (i + 1) (sh + 5) result'
         else (i + 1, result'))"
    by (rule readGroup.simps)
  have rhs: "readGroup s i sh r =
     (let b = map_option (\<lambda>c. c - 63) (charCodeAt s i);
          result' = r OR push_bit (sh mod 32) (chunk_bits b)
      in if continues b then readGroup s (i + 1) (sh + 5) result'
         else (i + 1, result'))"
    by (rule readGroup.simps)
  consider "i < length s" | "i = length s" | "length s < i" by linarith
  then show ?case
  proof cases
    case 1
    then have same: "charCodeAt (s @ [63]) i = charCodeAt s i"
      by (simp add: charCodeAt_def nth_append)
    show ?thesis
      unfolding lhs rhs same using "1.IH" [OF refl refl] by (simp add: Let_def)
  next
    case 2
    then show ?thesis
      unfolding lhs rhs by (simp add: charCodeAt_def Let_def continues_def chunk_bits_def)
  next
    case 3
    then show ?thesis
      unfolding lhs rhs by (simp add: charCodeAt_def Let_def continues_def chunk_bits_def)
  qed
qed


text \<open>The units a group read consumes: its continuation units and one more.\<close>

definition groupLen :: "js_string \<Rightarrow> nat" where
  "groupLen xs = length (takeWhile continuation xs) + 1"

lemma readGroup_fst: "fst (readGroup s i sh r) = i + groupLen (drop i s)"
proof (induction s i sh r rule: readGroup.induct)
  case (1 s i sh r)
  show ?case
  proof (cases "continues (map_option (\<lambda>c. c - 63) (charCodeAt s i))")
    case True
    then have i: "i < length s" and c: "continuation (s ! i)"
      by (auto simp: continues_def charCodeAt_def continuation_def split: if_splits)
    have "drop i s = s ! i # drop (i + 1) s" using i by (simp add: Cons_nth_drop_Suc)
    then have "groupLen (drop i s) = groupLen (drop (i + 1) s) + 1"
      using c by (simp add: groupLen_def)
    then show ?thesis
      using "1.IH" [OF refl refl True] True by (subst readGroup.simps) (simp add: Let_def)
  next
    case False
    have "groupLen (drop i s) = 1"
    proof (cases "i < length s")
      case True
      then have "drop i s = s ! i # drop (i + 1) s" by (simp add: Cons_nth_drop_Suc)
      moreover have "\<not> continuation (s ! i)"
        using False True by (simp add: continues_def charCodeAt_def continuation_def)
      ultimately show ?thesis by (simp add: groupLen_def)
    next
      case False
      then show ?thesis by (simp add: groupLen_def)
    qed
    with False show ?thesis by (subst readGroup.simps) (simp add: Let_def)
  qed
qed

text \<open>
  Where a longitude group is due: nothing is left, or what is left is cut inside a
  group or holds an even number of complete groups.
\<close>

definition lngMissing :: "js_string \<Rightarrow> bool" where
  "lngMissing xs \<longleftrightarrow> xs = [] \<or> continuation (last xs) \<or> even (terminators xs)"

lemma group_split:
  "dropWhile continuation xs = t # ys \<Longrightarrow>
   groupLen xs = length xs - length ys \<and> drop (groupLen xs) xs = ys \<and> \<not> continuation t \<and>
   terminators xs = terminators ys + 1 \<and> last xs = (if ys = [] then t else last ys) \<and>
   length ys < length xs"
proof -
  assume d: "dropWhile continuation xs = t # ys"
  have xs: "xs = takeWhile continuation xs @ t # ys"
    using takeWhile_dropWhile_id [of continuation xs] d by simp
  have t: "\<not> continuation t" using hd_dropWhile [of continuation xs] d by simp
  have f: "filter (\<lambda>c. \<not> continuation c) (takeWhile continuation xs) = []"
    by (simp add: filter_empty_conv) (meson set_takeWhileD)
  have len: "length xs = length (takeWhile continuation xs) + 1 + length ys"
    by (subst xs) simp
  have dr: "drop (length (takeWhile continuation xs) + 1) xs = ys"
    by (subst xs) simp
  have te: "terminators xs = terminators ys + 1"
    unfolding terminators_def by (subst xs) (simp add: f t)
  have la: "last xs = (if ys = [] then t else last ys)"
    by (subst xs) simp
  show ?thesis using len dr te la t by (simp add: groupLen_def)
qed

lemma group_all_continuation:
  "dropWhile continuation xs = [] \<Longrightarrow> groupLen xs = length xs + 1"
proof -
  assume "dropWhile continuation xs = []"
  then have "takeWhile continuation xs = xs"
    using takeWhile_dropWhile_id [of continuation xs] by simp
  then show ?thesis by (simp only: groupLen_def)
qed

lemma lat_group_step:
  assumes "truncated xs"
  shows "length xs < groupLen xs \<or> (groupLen xs \<le> length xs \<and> lngMissing (drop (groupLen xs) xs))"
proof (cases "dropWhile continuation xs")
  case Nil
  then show ?thesis by (simp add: group_all_continuation)
next
  case (Cons t ys)
  from group_split [OF Cons] assms show ?thesis
    by (auto simp: truncated_def lngMissing_def split: if_splits)
qed

lemma lng_group_step:
  assumes "lngMissing xs"
  shows "length xs < groupLen xs \<or> (groupLen xs < length xs \<and> truncated (drop (groupLen xs) xs))"
proof (cases "dropWhile continuation xs")
  case Nil
  then show ?thesis by (simp add: group_all_continuation)
next
  case (Cons t ys)
  then have "xs \<noteq> []" by auto
  with group_split [OF Cons] assms show ?thesis
    by (cases "ys = []") (auto simp: truncated_def lngMissing_def terminators_def split: if_splits)
qed

lemma pair_step:
  assumes "truncated (drop i s)"
  defines "i1 \<equiv> i + groupLen (drop i s)"
  defines "i2 \<equiv> i1 + groupLen (drop i1 s)"
  shows "length s < i2 \<or> (i2 < length s \<and> truncated (drop i2 s))"
proof -
  have i: "i < length s" using assms(1) by (auto simp: truncated_def)
  from lat_group_step [OF assms(1)]
  have "lngMissing (drop i1 s)"
  proof
    assume "length (drop i s) < groupLen (drop i s)"
    then have "length s < i1" using i by (simp add: i1_def)
    then show ?thesis by (simp add: lngMissing_def)
  next
    assume "groupLen (drop i s) \<le> length (drop i s) \<and> lngMissing (drop (groupLen (drop i s)) (drop i s))"
    then show ?thesis by (simp add: i1_def add.commute)
  qed
  from lng_group_step [OF this] show ?thesis
  proof
    assume "length (drop i1 s) < groupLen (drop i1 s)"
    then show ?thesis by (auto simp: i2_def)
  next
    assume a: "groupLen (drop i1 s) < length (drop i1 s) \<and>
               truncated (drop (groupLen (drop i1 s)) (drop i1 s))"
    then have "i2 < length s" by (auto simp: i2_def)
    moreover have "truncated (drop i2 s)" using a by (simp add: i2_def add.commute)
    ultimately show ?thesis by simp
  qed
qed

lemma decodeLoop_unfold:
  "index < length encoded \<Longrightarrow>
   decodeLoop encoded index lat0 lng0 poly =
     decodeLoop encoded
       (fst (readGroup encoded (fst (readGroup encoded index 0 0)) 0 0))
       (lat0 + zigzag (snd (readGroup encoded index 0 0)))
       (lng0 + zigzag (snd (readGroup encoded (fst (readGroup encoded index 0 0)) 0 0)))
       (poly @ [\<lparr>lat = real_of_int (lat0 + zigzag (snd (readGroup encoded index 0 0))) / 100000,
                 lng = real_of_int (lng0 + zigzag (snd (readGroup encoded
                         (fst (readGroup encoded index 0 0)) 0 0))) / 100000\<rparr>])"
  by (subst decodeLoop.simps) (simp add: Let_def split: prod.splits)

lemma decodeLoop_done: "length encoded \<le> index \<Longrightarrow> decodeLoop encoded index lat0 lng0 poly = poly"
  by (subst decodeLoop.simps) simp

lemma decodeLoop_pad:
  "truncated (drop i s) \<Longrightarrow> decodeLoop (s @ [63]) i a b p = decodeLoop s i a b p"
proof (induction "length s - i" arbitrary: i a b p rule: less_induct)
  case less
  define i1 where "i1 = i + groupLen (drop i s)"
  define i2 where "i2 = i1 + groupLen (drop i1 s)"
  have i: "i < length s" using less.prems by (auto simp: truncated_def)
  have f1: "fst (readGroup s i 0 0) = i1" by (simp add: readGroup_fst i1_def)
  have f2: "fst (readGroup s i1 0 0) = i2" by (simp add: readGroup_fst i2_def)
  have gt: "i < i2" by (simp add: i1_def i2_def groupLen_def)
  have l: "decodeLoop (s @ [63]) i a b p =
           decodeLoop (s @ [63]) i2 (a + zigzag (snd (readGroup s i 0 0)))
             (b + zigzag (snd (readGroup s i1 0 0)))
             (p @ [\<lparr>lat = real_of_int (a + zigzag (snd (readGroup s i 0 0))) / 100000,
                    lng = real_of_int (b + zigzag (snd (readGroup s i1 0 0))) / 100000\<rparr>])"
    using i by (subst decodeLoop_unfold) (simp_all add: readGroup_pad f1 f2)
  have r: "decodeLoop s i a b p =
           decodeLoop s i2 (a + zigzag (snd (readGroup s i 0 0)))
             (b + zigzag (snd (readGroup s i1 0 0)))
             (p @ [\<lparr>lat = real_of_int (a + zigzag (snd (readGroup s i 0 0))) / 100000,
                    lng = real_of_int (b + zigzag (snd (readGroup s i1 0 0))) / 100000\<rparr>])"
    using i by (subst decodeLoop_unfold) (simp_all add: f1 f2)
  from pair_step [OF less.prems] have "length s < i2 \<or> (i2 < length s \<and> truncated (drop i2 s))"
    by (simp add: i1_def i2_def)
  then show ?case
  proof
    assume "length s < i2"
    then show ?thesis unfolding l r by (simp add: decodeLoop_done)
  next
    assume a: "i2 < length s \<and> truncated (drop i2 s)"
    then have "length s - i2 < length s - i" using gt by linarith
    from less.hyps [OF this] a show ?thesis unfolding l r by simp
  qed
qed

lemma decodeLoop_length: "length p \<le> length (decodeLoop s i a b p)"
proof (induction "length s - i" arbitrary: i a b p rule: less_induct)
  case less
  show ?case
  proof (cases "i < length s")
    case False
    then show ?thesis by (simp add: decodeLoop_done)
  next
    case True
    define i2 where "i2 = fst (readGroup s (fst (readGroup s i 0 0)) 0 0)"
    define a' where "a' = a + zigzag (snd (readGroup s i 0 0))"
    define b' where "b' = b + zigzag (snd (readGroup s (fst (readGroup s i 0 0)) 0 0))"
    define x where "x = \<lparr>lat = real_of_int a' / 100000, lng = real_of_int b' / 100000\<rparr>"
    have "i < i2"
      unfolding i2_def
      using readGroup_index [of i s 0 0] readGroup_index [of "fst (readGroup s i 0 0)" s 0 0]
      by linarith
    then have "length s - i2 < length s - i" using True by linarith
    from less.hyps [OF this, of "p @ [x]" a' b']
    have "Suc (length p) \<le> length (decodeLoop s i2 a' b' (p @ [x]))" by simp
    moreover have "decodeLoop s i a b p = decodeLoop s i2 a' b' (p @ [x])"
      unfolding i2_def a'_def b'_def x_def by (rule decodeLoop_unfold [OF True])
    ultimately show ?thesis by simp
  qed
qed

lemma decodeLoop_grows:
  "i < length s \<Longrightarrow> length p < length (decodeLoop s i a b p)"
proof -
  assume i: "i < length s"
  define i2 where "i2 = fst (readGroup s (fst (readGroup s i 0 0)) 0 0)"
  define a' where "a' = a + zigzag (snd (readGroup s i 0 0))"
  define b' where "b' = b + zigzag (snd (readGroup s (fst (readGroup s i 0 0)) 0 0))"
  define x where "x = \<lparr>lat = real_of_int a' / 100000, lng = real_of_int b' / 100000\<rparr>"
  have "decodeLoop s i a b p = decodeLoop s i2 a' b' (p @ [x])"
    unfolding i2_def a'_def b'_def x_def by (rule decodeLoop_unfold [OF i])
  moreover have "length (p @ [x]) \<le> length (decodeLoop s i2 a' b' (p @ [x]))"
    by (rule decodeLoop_length)
  ultimately show ?thesis by simp
qed

lemma decodePolyline_nonempty: "s \<noteq> [] \<Longrightarrow> decodePolyline s \<noteq> []"
  using decodeLoop_grows [of 0 s "[]" 0 0] by (auto simp: decodePolyline_def)

lemma truncated_example: "truncated (js ''_p~iF~ps|'')"
  by code_simp

text \<open>
  C1, as the specification states it, fails: the decoder has no failure path. This
  string is the reference polyline cut inside the longitude group of its first point;
  it decodes to one point, whose longitude is built from the four units that are left.
\<close>

theorem decodePolyline_truncated_counterexample:
  "truncated (js ''_p~iF~ps|'') \<and>
   decodePolyline (js ''_p~iF~ps|'') = [\<lparr>lat = 38.5, lng = - (15177 / 3125)\<rparr>]"
  by code_simp

text \<open>
  C1, amended: for every truncated string \<^const>\<open>decodePolyline\<close> returns a point list, and
  not an empty one: the list of the string completed with one \<^verbatim>\<open>?\<close>, the unit that
  ends a group with a zero chunk. The missing units count as zero and the last point is
  built from the incomplete pair.
\<close>

theorem decodePolyline_truncated:
  "truncated s \<Longrightarrow> decodePolyline s = decodePolyline (s @ js ''?'') \<and> decodePolyline s \<noteq> []"
  using decodeLoop_pad [of 0 s 0 0 "[]"] decodePolyline_nonempty [of s]
  by (auto simp: decodePolyline_def js_def truncated_def)

theorem decodePolyline_truncated_witness:
  "truncated (js ''_p~iF~ps|'') \<and>
   decodePolyline (js ''_p~iF~ps|'') = decodePolyline (js ''_p~iF~ps|'' @ js ''?'') \<and>
   decodePolyline (js ''_p~iF~ps|'') \<noteq> []"
  by (rule conjI [OF truncated_example decodePolyline_truncated [OF truncated_example]])

end
